theory Spec2Isabelle
  imports Complex_Main "HOL-Library.Word" "HOL-Library.Signed_Division"
begin

section \<open>Background remover: a shallow embedding of \<^verbatim>\<open>background_remover.cc\<close>\<close>

subsection \<open>Errors\<close>

text \<open>
  A failed glog \<^verbatim>\<open>CHECK\<close> aborts the process; an OpenCV assertion throws an exception
  nobody catches; undefined behaviour of C++ (division by zero, signed overflow, an access
  outside a buffer) is written out as an outcome of its own, so that no theorem can rely on it.
\<close>

datatype error =
    CheckFailed string
  | CvException string
  | UndefinedBehaviour string

text \<open>
  A computation returns \<open>Inr\<close> its result or \<open>Inl\<close> what stopped it. The left side is
  \<open>error\<close> for code without effects, and \<open>error \<times> frame\<close> for code that writes to the
  frame: the error together with the frame as it is at that moment.
\<close>

definition and_then :: "'x + 'a \<Rightarrow> ('a \<Rightarrow> 'x + 'b) \<Rightarrow> 'x + 'b" where
  "and_then m f = (case m of Inl stop \<Rightarrow> Inl stop | Inr a \<Rightarrow> f a)"

definition stopped_with :: "'s \<Rightarrow> error + 'a \<Rightarrow> (error \<times> 's) + 'a" where
  "stopped_with s m = (case m of Inl e \<Rightarrow> Inl (e, s) | Inr a \<Rightarrow> Inr a)"

definition CHECK :: "bool \<Rightarrow> string \<Rightarrow> error + unit" where
  "CHECK c msg = (if c then Inr () else Inl (CheckFailed msg))"

definition CHECK_NOTNULL :: "'a option \<Rightarrow> string \<Rightarrow> error + 'a" where
  "CHECK_NOTNULL p msg = (case p of None \<Rightarrow> Inl (CheckFailed msg) | Some a \<Rightarrow> Inr a)"

subsection \<open>C integers\<close>

text \<open>
  \<^verbatim>\<open>int\<close> is 32 bits wide. \<^verbatim>\<open>/\<close> and \<^verbatim>\<open>%\<close> truncate towards zero and are undefined
  for a zero divisor and for \<^verbatim>\<open>INT_MIN / -1\<close>; \<^verbatim>\<open>*\<close> is undefined when the product leaves
  the range.
\<close>

definition INT_MIN :: int where "INT_MIN = - (2 ^ 31)"
definition INT_MAX :: int where "INT_MAX = 2 ^ 31 - 1"

definition c_div :: "int \<Rightarrow> int \<Rightarrow> error + int" where
  "c_div a b =
     (if b = 0 then Inl (UndefinedBehaviour ''division by zero'')
      else if a = INT_MIN \<and> b = - 1 then Inl (UndefinedBehaviour ''signed overflow'')
      else Inr (a sdiv b))"

definition c_mod :: "int \<Rightarrow> int \<Rightarrow> error + int" where
  "c_mod a b =
     (if b = 0 then Inl (UndefinedBehaviour ''division by zero'')
      else if a = INT_MIN \<and> b = - 1 then Inl (UndefinedBehaviour ''signed overflow'')
      else Inr (a smod b))"

definition c_mul :: "int \<Rightarrow> int \<Rightarrow> error + int" where
  "c_mul a b =
     (if INT_MIN \<le> a * b \<and> a * b \<le> INT_MAX then Inr (a * b)
      else Inl (UndefinedBehaviour ''signed overflow''))"

subsection \<open>Floating-point values and their comparison\<close>

text \<open>
  The decoder only compares the \<^verbatim>\<open>float\<close>s of the output tensor, it never computes with
  them. A value is a NaN, an infinity or a finite number (both zeros are \<open>Finite 0\<close>, they
  compare equal); \<^verbatim>\<open><\<close> is the IEEE comparison, false as soon as one side is a NaN.
\<close>

datatype cfloat = NaN | NegInf | Finite real | PosInf

fun float_less :: "cfloat \<Rightarrow> cfloat \<Rightarrow> bool" where
  "float_less NaN _ = False"
| "float_less _ NaN = False"
| "float_less PosInf _ = False"
| "float_less _ PosInf = True"
| "float_less _ NegInf = False"
| "float_less NegInf _ = True"
| "float_less (Finite a) (Finite b) = (a < b)"

definition float_le :: "cfloat \<Rightarrow> cfloat \<Rightarrow> bool" where
  "float_le a b = (a \<noteq> NaN \<and> b \<noteq> NaN \<and> \<not> float_less b a)"

subsection \<open>Matrices\<close>

text \<open>
  A \<^verbatim>\<open>cv::Mat\<close> with one element per pixel, stored row by row. \<^verbatim>\<open>at(cv::Point(x, y))\<close>
  addresses column \<open>x\<close> of row \<open>y\<close> and does not check its argument in a release build.
  \<open>Mat_zeros w h\<close> is \<^verbatim>\<open>cv::Mat::zeros(cv::Size(w, h), CV_8U)\<close>; OpenCV refuses a
  negative size with an exception.
\<close>

record 'a Mat =
  rows :: int
  cols :: int
  elems :: "'a list"

type_synonym uchar = "8 word"
type_synonym Vec3b = "uchar \<times> uchar \<times> uchar"
type_synonym Vec3f = "cfloat \<times> cfloat \<times> cfloat"

definition wf_Mat :: "'a Mat \<Rightarrow> bool" where
  "wf_Mat m = (0 \<le> rows m \<and> 0 \<le> cols m \<and> int (length (elems m)) = rows m * cols m)"

definition Mat_zeros :: "int \<Rightarrow> int \<Rightarrow> error + uchar Mat" where
  "Mat_zeros w h =
     (if w < 0 \<or> h < 0 then Inl (CvException ''negative size'')
      else Inr \<lparr>rows = h, cols = w, elems = replicate (nat (w * h)) 0\<rparr>)"

definition in_Mat :: "'a Mat \<Rightarrow> int \<Rightarrow> int \<Rightarrow> bool" where
  "in_Mat m x y = (0 \<le> x \<and> x < cols m \<and> 0 \<le> y \<and> y < rows m)"

definition Mat_at :: "'a Mat \<Rightarrow> int \<Rightarrow> int \<Rightarrow> error + 'a" where
  "Mat_at m x y =
     (if in_Mat m x y then Inr (elems m ! nat (y * cols m + x))
      else Inl (UndefinedBehaviour ''Mat::at out of range''))"

definition Mat_at_put :: "'a Mat \<Rightarrow> int \<Rightarrow> int \<Rightarrow> 'a \<Rightarrow> error + 'a Mat" where
  "Mat_at_put m x y v =
     (if in_Mat m x y then Inr (m\<lparr>elems := (elems m)[nat (y * cols m + x) := v]\<rparr>)
      else Inl (UndefinedBehaviour ''Mat::at out of range''))"

subsection \<open>Loops\<close>

text \<open>
  \<open>for_each is f s\<close> runs the body \<open>f\<close> once for every index of \<open>is\<close>, in that order, and
  stops at the first failure. A sequential \<^verbatim>\<open>for\<close> loop and \<^verbatim>\<open>std::for_each\<close> visit
  \<open>[0..<n]\<close>; under \<^verbatim>\<open>std::execution::par_unseq\<close> the order is any arrangement of these.
\<close>

fun for_each :: "'i list \<Rightarrow> ('i \<Rightarrow> 's \<Rightarrow> 'e + 's) \<Rightarrow> 's \<Rightarrow> 'e + 's" where
  "for_each [] f s = Inr s"
| "for_each (i # is) f s = (case f i s of Inl e \<Rightarrow> Inl e | Inr s' \<Rightarrow> for_each is f s')"

text \<open>The indices of \<^verbatim>\<open>for (int i = 0; i < n; i++)\<close>.\<close>

definition c_range :: "int \<Rightarrow> int list" where
  "c_range n = map int [0..<nat n]"

subsection \<open>The adapter\<close>

datatype ModelType = Undefined | DeeplabV3 | BodypixResnet | BodypixMobilenet

definition deeplabv3_label_names :: "string list" where
  "deeplabv3_label_names =
     [''background'', ''aeroplane'', ''bicycle'', ''bird'', ''board'', ''bottle'', ''bus'',
      ''car'', ''cat'', ''chair'', ''cow'', ''diningtable'', ''dog'', ''horse'',
      ''motorbike'', ''person'', ''pottedplant'', ''sheep'', ''sofa'', ''train'', ''tv'']"

definition deeplabv3_label_count :: nat where
  "deeplabv3_label_count = length deeplabv3_label_names"

text \<open>
  The members \<^verbatim>\<open>model_type_\<close>, \<^verbatim>\<open>width_\<close>, \<^verbatim>\<open>height_\<close> and \<^verbatim>\<open>stride_\<close> of the
  class, without the trailing underscore.
\<close>

record BackgroundRemover =
  model_type :: ModelType
  width :: int
  height :: int
  stride :: int

definition parseModelType :: "string \<Rightarrow> ModelType" where
  "parseModelType model_type_name =
     (if model_type_name = ''deeplabv3'' then DeeplabV3
      else if model_type_name = ''bodypix_resnet'' then BodypixResnet
      else if model_type_name = ''bodypix_mobilenet'' then BodypixMobilenet
      else Undefined)"

text \<open>
  The inference engine is a collaborator. What the constructor learns from it is whether
  each handle could be made, and the type and shape of the first input and output tensor.
\<close>

datatype TfLiteType = kTfLiteNoType | kTfLiteFloat32 | kTfLiteInt32 | kTfLiteUInt8

record TfLiteTensor =
  tensor_type :: TfLiteType
  tensor_dims :: "int list"

definition TfLiteTensorType :: "TfLiteTensor \<Rightarrow> TfLiteType" where
  "TfLiteTensorType t = tensor_type t"

definition TfLiteTensorNumDims :: "TfLiteTensor \<Rightarrow> int" where
  "TfLiteTensorNumDims t = int (length (tensor_dims t))"

definition TfLiteTensorDim :: "TfLiteTensor \<Rightarrow> nat \<Rightarrow> int" where
  "TfLiteTensorDim t i = tensor_dims t ! i"

record TfLiteModel =
  GetInputTensor :: "TfLiteTensor option"
  GetOutputTensor :: "TfLiteTensor option"

record TfLite =
  ModelCreateFromFile :: "string \<Rightarrow> TfLiteModel option"
  InterpreterOptionsCreate :: bool
  WITH_GL :: bool
  GpuDelegateV2Create :: bool
  InterpreterCreate :: bool

text \<open>
  The constructor, check by check. \<^verbatim>\<open>num_threads\<close> is only handed to the engine and is
  left out. The result is the object, or the check that ended the process.
\<close>

text \<open>The checks that depend on the model type (the \<^verbatim>\<open>if\<close> chain that ends the constructor).\<close>

definition kind_checks :: "ModelType \<Rightarrow> int \<Rightarrow> TfLiteTensor \<Rightarrow> error + unit" where
  "kind_checks mt stride_v output =
     (if mt = DeeplabV3 then
        and_then (CHECK (stride_v = 1) ''stride_ == 1'') (\<lambda>_.
        CHECK (TfLiteTensorDim output 3 = int deeplabv3_label_count)
          ''TfLiteTensorDim(output_, 3) == deeplabv3_label_count'')
      else if mt = BodypixResnet then
        and_then (CHECK (stride_v = 16 \<or> stride_v = 32) ''stride_ == 16 || stride_ == 32'') (\<lambda>_.
        CHECK (TfLiteTensorDim output 3 = 1) ''TfLiteTensorDim(output_, 3) == 1'')
      else if mt = BodypixMobilenet then
        and_then (CHECK (stride_v = 8 \<or> stride_v = 16) ''stride_ == 8 || stride_ == 16'') (\<lambda>_.
        CHECK (TfLiteTensorDim output 3 = 1) ''TfLiteTensorDim(output_, 3) == 1'')
      else Inr ())"

definition new_BackgroundRemover ::
    "TfLite \<Rightarrow> string \<Rightarrow> string \<Rightarrow> error + BackgroundRemover" where
  "new_BackgroundRemover tf model_filename model_type_name =
     (let mt = parseModelType model_type_name in
      and_then (CHECK (mt \<noteq> Undefined) ''Invalid model type'') (\<lambda>_.
      and_then (CHECK_NOTNULL (ModelCreateFromFile tf model_filename) ''model_'') (\<lambda>model.
      and_then (CHECK (InterpreterOptionsCreate tf) ''options_'') (\<lambda>_.
      and_then (CHECK (WITH_GL tf \<longrightarrow> GpuDelegateV2Create tf) ''gpu_delegate_'') (\<lambda>_.
      and_then (CHECK (InterpreterCreate tf) ''interpreter_'') (\<lambda>_.
      and_then (CHECK_NOTNULL (GetInputTensor model) ''input_'') (\<lambda>input.
      and_then (CHECK (TfLiteTensorType input = kTfLiteFloat32) ''input tensor must be float32'') (\<lambda>_.
      and_then (CHECK (TfLiteTensorNumDims input = 4) ''input tensor must have 4 dimensions'') (\<lambda>_.
      and_then (CHECK (TfLiteTensorDim input 0 = 1) ''input tensor batch size must be 1'') (\<lambda>_.
      let width_v = TfLiteTensorDim input 1; height_v = TfLiteTensorDim input 2 in
      and_then (CHECK (TfLiteTensorDim input 3 = 3) ''input tensor must have 3 channels'') (\<lambda>_.
      and_then (CHECK_NOTNULL (GetOutputTensor model) ''output_'') (\<lambda>output.
      and_then (CHECK (TfLiteTensorType output = kTfLiteFloat32) ''output tensor must be float32'') (\<lambda>_.
      and_then (CHECK (TfLiteTensorNumDims output = 4) ''output tensor must have 4 dimensions'') (\<lambda>_.
      let outw = TfLiteTensorDim output 1 in
      and_then (c_mod width_v outw) (\<lambda>wrem.
      and_then (CHECK (wrem = 0) ''output tensor width is not a multiple of input tensor width'') (\<lambda>_.
      and_then (c_div width_v outw) (\<lambda>stride_v.
      let outh = TfLiteTensorDim output 2 in
      and_then (c_mod height_v outh) (\<lambda>hrem.
      and_then (CHECK (hrem = 0) ''output tensor height is not a multiple of input tensor height'') (\<lambda>_.
      and_then (c_div height_v outh) (\<lambda>vstride.
      and_then (CHECK (vstride = stride_v) ''vertical stride doesn't match horizontal stride'') (\<lambda>_.
      and_then (kind_checks mt stride_v output) (\<lambda>_.
      Inr \<lparr>model_type = mt, width = width_v, height = height_v,
           stride = stride_v\<rparr>))))))))))))))))))))))"

subsection \<open>Decoding the output tensor\<close>

text \<open>
  \<^verbatim>\<open>std::max_element\<close> on a range given as a list, the result as an index: the first element
  is the candidate, and a later one replaces the candidate when the candidate is \<^verbatim>\<open><\<close> it.
\<close>

definition max_element :: "cfloat list \<Rightarrow> nat" where
  "max_element l =
     fold (\<lambda>i largest. if float_less (l ! largest) (l ! i) then i else largest)
       [1..<length l] 0"

definition person_label :: nat where "person_label = 15"
definition threshold :: cfloat where "threshold = Finite (1 / 2)"

text \<open>The scores of cell \<open>pixel\<close>: element \<open>pixel\<close> of the buffer read as \<^verbatim>\<open>DeeplabV3Labels[]\<close>.\<close>

definition labels_at :: "cfloat list \<Rightarrow> nat \<Rightarrow> cfloat list" where
  "labels_at data pixel =
     take deeplabv3_label_count (drop (pixel * deeplabv3_label_count) data)"

text \<open>The statement both lambdas share: \<^verbatim>\<open>ret.at<unsigned char>(cv::Point(pixel % maskw, pixel / maskw)) = 1\<close>.\<close>

definition mark :: "int \<Rightarrow> nat \<Rightarrow> uchar Mat \<Rightarrow> error + uchar Mat" where
  "mark maskw pixel ret =
     and_then (c_mod (int pixel) maskw) (\<lambda>x.
     and_then (c_div (int pixel) maskw) (\<lambda>y.
     Mat_at_put ret x y 1))"

definition deeplab_cell :: "cfloat list \<Rightarrow> int \<Rightarrow> nat \<Rightarrow> uchar Mat \<Rightarrow> error + uchar Mat" where
  "deeplab_cell data maskw pixel ret =
     (let label = max_element (labels_at data pixel)
      in if label \<noteq> person_label then mark maskw pixel ret else Inr ret)"

definition prob_cell :: "cfloat list \<Rightarrow> int \<Rightarrow> nat \<Rightarrow> uchar Mat \<Rightarrow> error + uchar Mat" where
  "prob_cell data maskw pixel ret =
     (if float_less (data ! pixel) threshold then mark maskw pixel ret else Inr ret)"

text \<open>
  \<open>getMaskFromOutput_in order r data\<close>: the method on the adapter \<open>r\<close>, with the output tensor
  holding the floats \<open>data\<close> (four bytes each), and \<open>order n\<close> the order in which the \<open>n\<close>
  cells are visited.
\<close>

definition getMaskFromOutput_in ::
    "(nat \<Rightarrow> nat list) \<Rightarrow> BackgroundRemover \<Rightarrow> cfloat list \<Rightarrow> error + uchar Mat" where
  "getMaskFromOutput_in order r data =
     and_then (c_div (width r) (stride r)) (\<lambda>maskw.
     and_then (c_div (height r) (stride r)) (\<lambda>maskh.
     and_then (Mat_zeros maskw maskh) (\<lambda>ret.
     let size = 4 * int (length data) in
     and_then (c_mul maskw maskh) (\<lambda>n.
     if model_type r = DeeplabV3 then
       and_then (CHECK (size = n * (4 * int deeplabv3_label_count))
                 ''size == maskw * maskh * sizeof(DeeplabV3Labels)'') (\<lambda>_.
       for_each (order (nat n)) (deeplab_cell data maskw) ret)
     else
       and_then (CHECK (size = n * 4) ''size == maskw * maskh * sizeof(float)'') (\<lambda>_.
       for_each (order (nat n)) (prob_cell data maskw) ret)))))"

definition getMaskFromOutput :: "BackgroundRemover \<Rightarrow> cfloat list \<Rightarrow> error + uchar Mat" where
  "getMaskFromOutput = getMaskFromOutput_in (\<lambda>n. [0..<n])"

subsection \<open>Normalising the input\<close>

text \<open>
  The arithmetic on \<^verbatim>\<open>float\<close> is done by OpenCV and the hardware, and its rounding is
  not part of this development: the three operations the code uses are parameters.
  \<open>cvt_scale u alpha beta\<close> is one channel of \<^verbatim>\<open>convertTo(ret, CV_32FC3, alpha, beta)\<close>,
  \<open>of_double\<close> narrows a \<^verbatim>\<open>double\<close> literal, \<open>fadd\<close> is \<^verbatim>\<open>+\<close>.
\<close>

record FloatOps =
  cvt_scale :: "uchar \<Rightarrow> real \<Rightarrow> real \<Rightarrow> cfloat"
  of_double :: "real \<Rightarrow> cfloat"
  fadd :: "cfloat \<Rightarrow> cfloat \<Rightarrow> cfloat"

definition convertTo :: "FloatOps \<Rightarrow> Vec3b Mat \<Rightarrow> real \<Rightarrow> real \<Rightarrow> Vec3f Mat" where
  "convertTo ops img alpha beta =
     \<lparr>rows = rows img, cols = cols img,
      elems = map (\<lambda>(c0, c1, c2). (cvt_scale ops c0 alpha beta, cvt_scale ops c1 alpha beta,
                                    cvt_scale ops c2 alpha beta)) (elems img)\<rparr>"

definition minVec3f :: "Vec3f \<Rightarrow> cfloat" where
  "minVec3f v = (case v of (v0, v1, v2) \<Rightarrow>
     let m = (if float_less v1 v0 then v1 else v0) in if float_less v2 m then v2 else m)"

definition maxVec3f :: "Vec3f \<Rightarrow> cfloat" where
  "maxVec3f v = (case v of (v0, v1, v2) \<Rightarrow>
     let m = (if float_less v0 v1 then v1 else v0) in if float_less m v2 then v2 else m)"

text \<open>
  \<^verbatim>\<open>std::minmax_element\<close> with the comparison of the source: the first smallest and the
  last largest element, whatever the execution policy. The standard asks for a comparison
  that is a strict weak ordering, which \<^verbatim>\<open><\<close> on floats is not once a NaN is among them:
  what the parallel algorithm returns then is not defined, and the check is undefined
  behaviour. The check only exists in a build without \<^verbatim>\<open>NDEBUG\<close>.
\<close>

definition has_NaN :: "Vec3f \<Rightarrow> bool" where
  "has_NaN v = (case v of (v0, v1, v2) \<Rightarrow> v0 = NaN \<or> v1 = NaN \<or> v2 = NaN)"

definition minmax_element :: "Vec3f list \<Rightarrow> Vec3f \<times> Vec3f" where
  "minmax_element vs =
     fold (\<lambda>v (mn, mx).
            (if float_less (minVec3f v) (minVec3f mn) then v else mn,
             if float_less (minVec3f v) (minVec3f mx) then mx else v))
       (tl vs) (hd vs, hd vs)"

definition checkValuesInRange :: "bool \<Rightarrow> Vec3f Mat \<Rightarrow> cfloat \<Rightarrow> cfloat \<Rightarrow> error + unit" where
  "checkValuesInRange debug mat lo hi =
     (if \<not> debug then Inr ()
      else if elems mat = [] then Inl (UndefinedBehaviour ''dereferenced end iterator'')
      else if list_ex has_NaN (elems mat)
      then Inl (UndefinedBehaviour ''comparison is not a strict weak ordering'')
      else case minmax_element (elems mat) of (matmin, matmax) \<Rightarrow>
        and_then (CHECK (float_le lo (minVec3f matmin)) ''minVec3f(*matmin) >= min'') (\<lambda>_.
        CHECK (float_le (maxVec3f matmax) hi) ''maxVec3f(*matmax) <= max''))"

definition makeInputTensor ::
    "FloatOps \<Rightarrow> bool \<Rightarrow> BackgroundRemover \<Rightarrow> Vec3b Mat \<Rightarrow> error + Vec3f Mat" where
  "makeInputTensor ops debug r img =
     (if model_type r = DeeplabV3 \<or> model_type r = BodypixMobilenet then
        let ret = convertTo ops img (1 / 255) (- (1 / 2)) in
        and_then (checkValuesInRange debug ret (Finite (- (1 / 2))) (Finite (1 / 2))) (\<lambda>_. Inr ret)
      else if model_type r = BodypixResnet then
        let ret = convertTo ops img 1 0;
            ret = ret\<lparr>elems := map (\<lambda>(v0, v1, v2).
                    (fadd ops v0 (of_double ops (- 123.15)),
                     fadd ops v1 (of_double ops (- 115.90)),
                     fadd ops v2 (of_double ops (- 103.06)))) (elems ret)\<rparr>
        in and_then (checkValuesInRange debug ret (Finite (- 127)) (Finite 255)) (\<lambda>_. Inr ret)
      else Inl (CheckFailed ''0''))"

subsection \<open>Processing one frame\<close>

text \<open>
  \<^verbatim>\<open>cv::resize\<close> (with the \<^verbatim>\<open>interpolation_method\<close> of the header) and the interpreter are
  collaborators: \<open>resize_frame m w h\<close> and \<open>resize_mask m w h\<close> stand for
  \<^verbatim>\<open>cv::resize(m, dst, cv::Size(w, h), interpolation_method)\<close>, and \<open>Invoke\<close> maps the floats
  copied into the input tensor to the floats found in the output tensor afterwards.
\<close>

record Collaborators =
  resize_frame :: "Vec3b Mat \<Rightarrow> int \<Rightarrow> int \<Rightarrow> error + Vec3b Mat"
  resize_mask :: "uchar Mat \<Rightarrow> int \<Rightarrow> int \<Rightarrow> error + uchar Mat"
  Invoke :: "cfloat list \<Rightarrow> cfloat list"
  float_ops :: FloatOps
  debug_build :: bool

text \<open>
  \<^verbatim>\<open>TfLiteTensorCopyFromBuffer(input_, input_float.ptr<float>(), width_ * height_ * sizeof(float) * 3)\<close>:
  the first \<open>width_ * height_\<close> pixels of the matrix, three floats each.
\<close>

definition input_buffer :: "BackgroundRemover \<Rightarrow> Vec3f Mat \<Rightarrow> error + cfloat list" where
  "input_buffer r input_float =
     and_then (c_mul (width r) (height r)) (\<lambda>n.
     if n < 0 \<or> int (length (elems input_float)) < n
     then Inl (UndefinedBehaviour ''read outside the buffer'')
     else Inr (concat (map (\<lambda>(v0, v1, v2). [v0, v1, v2]) (take (nat n) (elems input_float)))))"

text \<open>
  The loop that ends \<^verbatim>\<open>maskBackground\<close>. It writes to the frame, so what stops it comes
  with the frame as written so far.
\<close>

definition composite_pixel ::
    "'a Mat \<Rightarrow> uchar Mat \<Rightarrow> int \<Rightarrow> int \<Rightarrow> 'a Mat \<Rightarrow> (error \<times> 'a Mat) + 'a Mat" where
  "composite_pixel maskImage upscaled x y frame =
     stopped_with frame
       (and_then (Mat_at upscaled x y) (\<lambda>m.
        if m \<noteq> 0 then and_then (Mat_at maskImage x y) (\<lambda>p. Mat_at_put frame x y p)
        else Inr frame))"

definition composite :: "'a Mat \<Rightarrow> 'a Mat \<Rightarrow> uchar Mat \<Rightarrow> (error \<times> 'a Mat) + 'a Mat" where
  "composite frame maskImage upscaled =
     for_each (c_range (cols frame))
       (\<lambda>x. for_each (c_range (rows frame)) (\<lambda>y. composite_pixel maskImage upscaled x y))
       frame"

text \<open>
  Everything \<^verbatim>\<open>maskBackground\<close> does before that loop; the frame is only read. The
  check of \<^verbatim>\<open>input_float.elemSize()\<close> holds by the type of \<open>input_float\<close>, three floats
  of four bytes, and the time taken by the interpreter is only logged.
\<close>

definition upscaled_mask ::
    "Collaborators \<Rightarrow> BackgroundRemover \<Rightarrow> Vec3b Mat \<Rightarrow> Vec3b Mat \<Rightarrow> error + uchar Mat" where
  "upscaled_mask env r frame maskImage =
     and_then (CHECK (rows frame = rows maskImage \<and> cols frame = cols maskImage)
             ''frame.size == maskImage.size'') (\<lambda>_.
     and_then (resize_frame env frame (width r) (height r)) (\<lambda>small.
     and_then (makeInputTensor (float_ops env) (debug_build env) r small) (\<lambda>input_float.
     and_then (input_buffer r input_float) (\<lambda>input.
     let output = Invoke env input in
     and_then (getMaskFromOutput r output) (\<lambda>small_mask.
     resize_mask env small_mask (cols frame) (rows frame))))))"

definition maskBackground ::
    "Collaborators \<Rightarrow> BackgroundRemover \<Rightarrow> Vec3b Mat \<Rightarrow> Vec3b Mat
      \<Rightarrow> (error \<times> Vec3b Mat) + Vec3b Mat" where
  "maskBackground env r frame maskImage =
     and_then (stopped_with frame (upscaled_mask env r frame maskImage)) (\<lambda>upscaled.
     composite frame maskImage upscaled)"

subsection \<open>What the specification says, as definitions\<close>

text \<open>
  The arg-max of the specification: the class with the maximum score, the first one if
  several share it. \<open>None\<close> when no score is at least every other (a NaN among them).
\<close>

definition is_max :: "cfloat list \<Rightarrow> nat \<Rightarrow> bool" where
  "is_max l i = list_all (\<lambda>v. float_le v (l ! i)) l"

definition argmax_first :: "cfloat list \<Rightarrow> nat option" where
  "argmax_first l = find (is_max l) [0..<length l]"

text \<open>
  The float operations are within given distances of the real results: \<open>dc\<close> for the
  scaled conversion, \<open>dl\<close> for a narrowed literal, \<open>da\<close> for an addition, each on the
  range of values the normalisation meets. Exact operations are the case of three zeros;
  the operations of IEEE single precision are a case of three small positive numbers.
\<close>

definition ops_accurate :: "real \<Rightarrow> real \<Rightarrow> real \<Rightarrow> FloatOps \<Rightarrow> bool" where
  "ops_accurate dc dl da ops =
     ((\<forall>u a b. \<bar>a\<bar> \<le> 1 \<and> \<bar>b\<bar> \<le> 1 \<longrightarrow>
         (\<exists>v. cvt_scale ops u a b = Finite v \<and> \<bar>v - (a * real (unat u) + b)\<bar> \<le> dc)) \<and>
      (\<forall>x. \<bar>x\<bar> \<le> 256 \<longrightarrow> (\<exists>v. of_double ops x = Finite v \<and> \<bar>v - x\<bar> \<le> dl)) \<and>
      (\<forall>x y. \<bar>x\<bar> \<le> 512 \<and> \<bar>y\<bar> \<le> 512 \<longrightarrow>
         (\<exists>v. fadd ops (Finite x) (Finite y) = Finite v \<and> \<bar>v - (x + y)\<bar> \<le> da)))"

text \<open>The contract of each model kind: stride and number of output channels.\<close>

definition kind_contract :: "ModelType \<Rightarrow> int \<Rightarrow> int \<Rightarrow> bool" where
  "kind_contract k s channels =
     (case k of
        DeeplabV3 \<Rightarrow> s = 1 \<and> channels = 21
      | BodypixResnet \<Rightarrow> (s = 16 \<or> s = 32) \<and> channels = 1
      | BodypixMobilenet \<Rightarrow> (s = 8 \<or> s = 16) \<and> channels = 1
      | Undefined \<Rightarrow> False)"

subsection \<open>The mask in closed form\<close>

text \<open>
  What \<open>getMaskFromOutput_in\<close> computes, with the loop replaced by the list of its
  results; proved equal to it below for every order that visits each cell.
\<close>

definition decoded :: "BackgroundRemover \<Rightarrow> cfloat list \<Rightarrow> error + uchar Mat" where
  "decoded r data =
     and_then (c_div (width r) (stride r)) (\<lambda>maskw.
     and_then (c_div (height r) (stride r)) (\<lambda>maskh.
     and_then (Mat_zeros maskw maskh) (\<lambda>ret.
     and_then (c_mul maskw maskh) (\<lambda>n.
     if model_type r = DeeplabV3 then
       and_then (CHECK (4 * int (length data) = n * (4 * int deeplabv3_label_count))
                 ''size == maskw * maskh * sizeof(DeeplabV3Labels)'') (\<lambda>_.
       Inr (ret\<lparr>elems :=
         map (\<lambda>k. if max_element (labels_at data k) \<noteq> person_label then 1 else 0) [0..<nat n]\<rparr>))
     else
       and_then (CHECK (4 * int (length data) = n * 4) ''size == maskw * maskh * sizeof(float)'') (\<lambda>_.
       Inr (ret\<lparr>elems :=
         map (\<lambda>k. if float_less (data ! k) threshold then 1 else 0) [0..<nat n]\<rparr>))))))"

section \<open>Proofs\<close>

subsection \<open>Sequencing\<close>

lemma and_then_Inr [simp]: "and_then (Inr a) f = f a"
  by (simp add: and_then_def)

lemma and_then_Inl [simp]: "and_then (Inl e) f = Inl e"
  by (simp add: and_then_def)

lemma and_then_eq_Inr: "and_then m f = Inr b \<longleftrightarrow> (\<exists>a. m = Inr a \<and> f a = Inr b)"
  by (cases m) simp_all

lemma and_then_cong:
  assumes "m = m'" and "\<And>a. m' = Inr a \<Longrightarrow> f a = g a"
  shows "and_then m f = and_then m' g"
  using assms by (cases m') simp_all

lemma CHECK_eq_Inr [simp]: "CHECK c msg = Inr u \<longleftrightarrow> c"
  by (simp add: CHECK_def)

lemma CHECK_True [simp]: "c \<Longrightarrow> CHECK c msg = Inr ()"
  by (simp add: CHECK_def)

lemma CHECK_False [simp]: "\<not> c \<Longrightarrow> CHECK c msg = Inl (CheckFailed msg)"
  by (simp add: CHECK_def)

lemma CHECK_NOTNULL_eq_Inr [simp]: "CHECK_NOTNULL p msg = Inr a \<longleftrightarrow> p = Some a"
  by (cases p) (simp_all add: CHECK_NOTNULL_def)

lemma stopped_with_Inr [simp]: "stopped_with s (Inr a) = Inr a"
  by (simp add: stopped_with_def)

lemma stopped_with_Inl [simp]: "stopped_with s (Inl e) = Inl (e, s)"
  by (simp add: stopped_with_def)

subsection \<open>Integer arithmetic\<close>

lemma c_div_nonneg: "0 \<le> a \<Longrightarrow> 0 < b \<Longrightarrow> c_div a b = Inr (a div b)"
  by (simp add: c_div_def INT_MIN_def signed_divide_int_def sgn_if)

lemma c_mod_nonneg: "0 \<le> a \<Longrightarrow> 0 < b \<Longrightarrow> c_mod a b = Inr (a mod b)"
  by (simp add: c_mod_def INT_MIN_def signed_modulo_int_def sgn_if)

lemma c_div_Inr: "c_div a b = Inr q \<Longrightarrow> b \<noteq> 0 \<and> q = a sdiv b"
  by (auto simp: c_div_def split: if_splits)

lemma c_mod_Inr: "c_mod a b = Inr q \<Longrightarrow> b \<noteq> 0 \<and> q = a smod b"
  by (auto simp: c_mod_def split: if_splits)

lemma c_mul_Inr: "c_mul a b = Inr n \<Longrightarrow> n = a * b \<and> n \<le> INT_MAX"
  by (auto simp: c_mul_def split: if_splits)

lemma div_less_of_less_mult:
  fixes a b c :: int
  assumes "a < b * c" and "0 < b"
  shows "a div b < c"
proof (rule ccontr)
  assume "\<not> a div b < c"
  then have "c * b \<le> a div b * b"
    using assms(2) by (simp add: mult_right_mono)
  moreover have "0 \<le> a mod b"
    using assms(2) by simp
  moreover have "a div b * b + a mod b = a"
    by simp
  ultimately show False
    using assms(1) mult.commute [of b c] by linarith
qed

subsection \<open>Comparing floats\<close>

lemma float_less_irrefl [simp]: "\<not> float_less a a"
  by (cases a) auto

lemma float_less_asym: "float_less a b \<Longrightarrow> \<not> float_less b a"
  by (cases a; cases b) auto

lemma float_le_not_less: "float_le a b \<Longrightarrow> \<not> float_less b a"
  by (simp add: float_le_def)

lemma float_le_cases: "float_le a b \<Longrightarrow> float_less a b \<or> a = b"
  by (cases a; cases b) (auto simp: float_le_def)

lemma float_le_total: "a \<noteq> NaN \<Longrightarrow> b \<noteq> NaN \<Longrightarrow> float_le a b \<or> float_le b a"
  by (cases a; cases b) (auto simp: float_le_def)

lemma float_le_trans: "float_le a b \<Longrightarrow> float_le b c \<Longrightarrow> float_le a c"
  by (cases a; cases b; cases c) (auto simp: float_le_def)

lemma float_le_refl: "a \<noteq> NaN \<Longrightarrow> float_le a a"
  by (simp add: float_le_def)

subsection \<open>Loops that write one element per index\<close>

lemma fold_updates:
  assumes "set ks \<subseteq> {0..<length es}"
  shows "fold (\<lambda>k es. if c k then es[k := v k] else es) ks es =
         map (\<lambda>k. if k \<in> set ks \<and> c k then v k else es ! k) [0..<length es]"
  using assms
proof (induction ks arbitrary: es)
  case Nil
  then show ?case by (simp add: map_nth)
next
  case (Cons i ks)
  let ?es = "if c i then es[i := v i] else es"
  have "fold (\<lambda>k es. if c k then es[k := v k] else es) (i # ks) es =
        fold (\<lambda>k es. if c k then es[k := v k] else es) ks ?es"
    by simp
  also have "\<dots> = map (\<lambda>k. if k \<in> set ks \<and> c k then v k else ?es ! k) [0..<length ?es]"
    using Cons.prems by (intro Cons.IH) auto
  also have "\<dots> = map (\<lambda>k. if k \<in> set (i # ks) \<and> c k then v k else es ! k) [0..<length es]"
    using Cons.prems by (auto simp: nth_list_update)
  finally show ?case .
qed

text \<open>
  A loop whose body, at index \<open>i\<close>, either leaves the matrix alone or writes \<open>v\<close> at
  position \<open>idx i\<close>, is a fold of list updates.
\<close>

lemma for_each_updates:
  fixes s s0 :: "'a Mat"
  assumes "\<And>i (s :: 'a Mat). i \<in> set order \<Longrightarrow> rows s = rows s0 \<Longrightarrow> cols s = cols s0 \<Longrightarrow>
             length (elems s) = length (elems s0) \<Longrightarrow>
             f i s = Inr (if c (idx i) then s\<lparr>elems := (elems s)[idx i := v (idx i)]\<rparr> else s)"
    and "rows s = rows s0" and "cols s = cols s0" and "length (elems s) = length (elems s0)"
  shows "for_each order f s =
         Inr (s\<lparr>elems := fold (\<lambda>k es. if c k then es[k := v k] else es) (map idx order) (elems s)\<rparr>)"
  using assms
proof (induction order arbitrary: s)
  case Nil
  then show ?case by simp
next
  case (Cons i order)
  let ?s = "if c (idx i) then s\<lparr>elems := (elems s)[idx i := v (idx i)]\<rparr> else s"
  have step: "f i s = Inr ?s"
    using Cons.prems by simp
  have "for_each order f ?s =
        Inr (?s\<lparr>elems := fold (\<lambda>k es. if c k then es[k := v k] else es) (map idx order) (elems ?s)\<rparr>)"
    using Cons.prems by (intro Cons.IH) auto
  then show ?case
    using step by simp
qed

subsection \<open>The decoder\<close>

lemma mark_ok:
  assumes "cols ret = maskw" and "rows ret = maskh" and "int pixel < maskw * maskh"
    and "0 \<le> maskw" and "0 \<le> maskh"
  shows "mark maskw pixel ret = Inr (ret\<lparr>elems := (elems ret)[pixel := 1]\<rparr>)"
proof -
  have pos: "0 < maskw"
    using assms by (cases "maskw = 0") auto
  have "int pixel div maskw < maskh"
    using assms(3) pos by (rule div_less_of_less_mult)
  then show ?thesis
    using assms pos
    by (simp add: mark_def c_mod_nonneg c_div_nonneg Mat_at_put_def in_Mat_def
        pos_imp_zdiv_nonneg_iff)
qed

lemma for_each_cells:
  assumes "Mat_zeros maskw maskh = Inr ret" and "c_mul maskw maskh = Inr n"
    and "set order = {0..<nat n}"
    and "\<And>i s. f i s = (if c i then mark maskw i s else Inr s)"
  shows "for_each order f ret =
         Inr (ret\<lparr>elems := map (\<lambda>k. if c k then 1 else 0) [0..<nat n]\<rparr>)"
proof -
  have n: "n = maskw * maskh"
    using assms(2) by (simp add: c_mul_Inr)
  have ret: "ret = \<lparr>rows = maskh, cols = maskw, elems = replicate (nat n) 0\<rparr>"
    and nonneg: "0 \<le> maskw" "0 \<le> maskh"
    using assms(1) n by (auto simp: Mat_zeros_def split: if_splits)
  have len: "length (elems ret) = nat n"
    using ret by simp
  have "for_each order f ret =
        Inr (ret\<lparr>elems := fold (\<lambda>k es. if c k then es[k := 1] else es) (map id order) (elems ret)\<rparr>)"
  proof (rule for_each_updates [where ?s0.0 = ret])
    fix i and s :: "uchar Mat"
    assume "i \<in> set order" and "rows s = rows ret" and "cols s = cols ret"
    then have "mark maskw i s = Inr (s\<lparr>elems := (elems s)[i := 1]\<rparr>)"
      using assms(3) nonneg n by (intro mark_ok [where maskh = maskh]) (auto simp: ret)
    then show "f i s = Inr (if c (id i) then s\<lparr>elems := (elems s)[id i := 1]\<rparr> else s)"
      by (simp add: assms(4))
  qed simp_all
  also have "fold (\<lambda>k es. if c k then es[k := 1] else es) (map id order) (elems ret) =
        map (\<lambda>k. if k \<in> set order \<and> c k then 1 else elems ret ! k) [0..<length (elems ret)]"
    using assms(3) len by (intro fold_updates [where v = "\<lambda>_. 1", simplified, THEN trans]) simp_all
  also have "\<dots> = map (\<lambda>k. if c k then 1 else 0) [0..<nat n]"
    using assms(3) by (simp add: ret)
  finally show ?thesis .
qed

lemma getMaskFromOutput_in_decoded:
  assumes "\<And>n. set (order n) = {0..<n}"
  shows "getMaskFromOutput_in order r data = decoded r data"
  unfolding getMaskFromOutput_in_def decoded_def Let_def
  apply (intro and_then_cong refl)
  apply (auto intro!: and_then_cong for_each_cells simp: assms deeplab_cell_def prob_cell_def Let_def)
  done

lemma getMaskFromOutput_decoded: "getMaskFromOutput r data = decoded r data"
  unfolding getMaskFromOutput_def by (rule getMaskFromOutput_in_decoded) simp

text \<open>What a successful decoding looks like.\<close>

lemma decoded_Inr:
  assumes "decoded r data = Inr m"
  obtains maskw maskh where
    "c_div (width r) (stride r) = Inr maskw" and "c_div (height r) (stride r) = Inr maskh"
    and "0 \<le> maskw" and "0 \<le> maskh" and "maskw * maskh \<le> INT_MAX"
    and "rows m = maskh" and "cols m = maskw"
    and "model_type r = DeeplabV3 \<Longrightarrow> int (length data) = maskw * maskh * int deeplabv3_label_count"
    and "model_type r \<noteq> DeeplabV3 \<Longrightarrow> int (length data) = maskw * maskh"
    and "elems m = map (\<lambda>k.
           if model_type r = DeeplabV3
           then (if max_element (labels_at data k) \<noteq> person_label then 1 else 0)
           else (if float_less (data ! k) threshold then 1 else 0)) [0..<nat (maskw * maskh)]"
proof -
  from assms obtain maskw maskh ret n where
    w: "c_div (width r) (stride r) = Inr maskw" and h: "c_div (height r) (stride r) = Inr maskh"
    and z: "Mat_zeros maskw maskh = Inr ret" and n: "c_mul maskw maskh = Inr n"
    and body: "(if model_type r = DeeplabV3 then
       and_then (CHECK (4 * int (length data) = n * (4 * int deeplabv3_label_count))
                 ''size == maskw * maskh * sizeof(DeeplabV3Labels)'') (\<lambda>_.
       Inr (ret\<lparr>elems :=
         map (\<lambda>k. if max_element (labels_at data k) \<noteq> person_label then 1 else 0) [0..<nat n]\<rparr>))
     else
       and_then (CHECK (4 * int (length data) = n * 4) ''size == maskw * maskh * sizeof(float)'') (\<lambda>_.
       Inr (ret\<lparr>elems :=
         map (\<lambda>k. if float_less (data ! k) threshold then 1 else 0) [0..<nat n]\<rparr>))) = Inr m"
    unfolding decoded_def and_then_eq_Inr by blast
  have n': "n = maskw * maskh" "n \<le> INT_MAX"
    using n by (simp_all add: c_mul_Inr)
  have ret: "rows ret = maskh" "cols ret = maskw" "0 \<le> maskw" "0 \<le> maskh"
    using z by (auto simp: Mat_zeros_def split: if_splits)
  show thesis
  proof (rule that [OF w h ret(3,4)])
    show "maskw * maskh \<le> INT_MAX" using n' by simp
    show "rows m = maskh" "cols m = maskw"
      using body ret by (auto simp: and_then_eq_Inr split: if_splits)
    show "int (length data) = maskw * maskh * int deeplabv3_label_count" if "model_type r = DeeplabV3"
      using body that n' by (auto simp: and_then_eq_Inr)
    show "int (length data) = maskw * maskh" if "model_type r \<noteq> DeeplabV3"
      using body that n' by (auto simp: and_then_eq_Inr)
    show "elems m = map (\<lambda>k.
           if model_type r = DeeplabV3
           then (if max_element (labels_at data k) \<noteq> person_label then 1 else 0)
           else (if float_less (data ! k) threshold then 1 else 0)) [0..<nat (maskw * maskh)]"
      using body n' by (auto simp: and_then_eq_Inr split: if_splits)
  qed
qed

text \<open>Reading cell \<open>(x, y)\<close> of a decoded mask.\<close>

lemma decoded_at:
  assumes "decoded r data = Inr m" and "in_Mat m x y"
  shows "Mat_at m x y = Inr
           (if model_type r = DeeplabV3
            then (if max_element (labels_at data (nat (y * cols m + x))) \<noteq> person_label then 1 else 0)
            else (if float_less (data ! nat (y * cols m + x)) threshold then 1 else 0))"
proof -
  from assms(1) obtain maskw maskh where
    m: "rows m = maskh" "cols m = maskw"
    and el: "elems m = map (\<lambda>k.
           if model_type r = DeeplabV3
           then (if max_element (labels_at data k) \<noteq> person_label then 1 else 0)
           else (if float_less (data ! k) threshold then 1 else 0)) [0..<nat (maskw * maskh)]"
    by (rule decoded_Inr)
  have xy: "0 \<le> x" "x < maskw" "0 \<le> y" "y < maskh"
    using assms(2) m by (simp_all add: in_Mat_def)
  have "y * maskw + x < (y + 1) * maskw"
    using xy by (simp add: algebra_simps)
  also have "\<dots> \<le> maskh * maskw"
    using xy by (intro mult_right_mono) simp_all
  finally have "nat (y * maskw + x) < nat (maskw * maskh)"
    using xy by (simp add: mult.commute nat_less_iff)
  then show ?thesis
    using assms(2) m by (simp add: Mat_at_def el)
qed

subsection \<open>\<open>max_element\<close> and the arg-max of the specification\<close>

lemma argmax_firstD:
  assumes "argmax_first l = Some i"
  shows "i < length l" and "\<And>j. j < length l \<Longrightarrow> float_le (l ! j) (l ! i)"
    and "\<And>j. j < i \<Longrightarrow> float_less (l ! j) (l ! i)"
proof -
  from assms obtain k where k: "k < length [0..<length l]" "is_max l ([0..<length l] ! k)"
      "i = [0..<length l] ! k" "\<forall>j<k. \<not> is_max l ([0..<length l] ! j)"
    unfolding argmax_first_def find_Some_iff by blast
  then show i: "i < length l" by simp
  from k have mx: "is_max l i" and first: "\<And>j. j < i \<Longrightarrow> \<not> is_max l j"
    by simp_all
  show le: "float_le (l ! j) (l ! i)" if "j < length l" for j
    using mx that by (simp add: is_max_def list_all_length)
  show "float_less (l ! j) (l ! i)" if "j < i" for j
  proof (rule ccontr)
    assume "\<not> float_less (l ! j) (l ! i)"
    moreover have "float_le (l ! j) (l ! i)"
      using le that i by simp
    ultimately have "l ! j = l ! i"
      using float_le_cases by blast
    then have "is_max l j"
      using mx by (simp add: is_max_def)
    then show False
      using first that by blast
  qed
qed

text \<open>
  The loop of \<open>max_element\<close> after \<open>k\<close> elements: once it has passed an element that
  is above all earlier ones and not below any later one, that element is the candidate.
\<close>

lemma max_element_upto:
  assumes "i < length l" and "\<And>j. j < length l \<Longrightarrow> \<not> float_less (l ! i) (l ! j)"
    and "\<And>j. j < i \<Longrightarrow> float_less (l ! j) (l ! i)"
    and "1 \<le> k" and "k \<le> length l"
  defines "g \<equiv> fold (\<lambda>i largest. if float_less (l ! largest) (l ! i) then i else largest)"
  shows "g [1..<k] 0 < k \<and> (i < k \<longrightarrow> g [1..<k] 0 = i)"
  using assms(4,5)
proof (induction k rule: nat_induct_at_least)
  case base
  then show ?case by (simp add: g_def)
next
  case (Suc k)
  let ?c = "g [1..<k] 0"
  from Suc have IH: "?c < k" "i < k \<Longrightarrow> ?c = i"
    by simp_all
  have step: "g [1..<Suc k] 0 = (if float_less (l ! ?c) (l ! k) then k else ?c)"
    using Suc.hyps by (simp add: g_def)
  consider "i < k" | "i = k" | "k < i" by linarith
  then show ?case
  proof cases
    case 1
    then have "?c = i" by (rule IH)
    moreover have "\<not> float_less (l ! i) (l ! k)"
      using assms(2) [of k] Suc.prems by simp
    ultimately show ?thesis
      using step 1 by simp
  next
    case 2
    then have "float_less (l ! ?c) (l ! k)"
      using assms(3) IH(1) by simp
    then show ?thesis
      using step 2 by simp
  next
    case 3
    then show ?thesis
      using step IH(1) by simp
  qed
qed

lemma max_element_eqI:
  assumes "i < length l" and "\<And>j. j < length l \<Longrightarrow> \<not> float_less (l ! i) (l ! j)"
    and "\<And>j. j < i \<Longrightarrow> float_less (l ! j) (l ! i)"
  shows "max_element l = i"
proof -
  have "1 \<le> length l"
    using assms(1) by simp
  from max_element_upto [OF assms this order_refl] assms(1)
  show ?thesis
    by (simp add: max_element_def)
qed

lemma max_element_argmax_first:
  assumes "argmax_first l = Some i"
  shows "max_element l = i"
  using argmax_firstD [OF assms] by (intro max_element_eqI) (simp_all add: float_le_not_less)

lemma max_element_unique_max:
  assumes "i < length l" and "\<And>j. j < length l \<Longrightarrow> j \<noteq> i \<Longrightarrow> float_less (l ! j) (l ! i)"
  shows "max_element l = i"
proof (rule max_element_eqI [OF assms(1)])
  show "\<not> float_less (l ! i) (l ! j)" if "j < length l" for j
    using assms(2) [OF that] by (cases "j = i") (auto dest: float_less_asym)
  show "float_less (l ! j) (l ! i)" if "j < i" for j
    using assms that by simp
qed

text \<open>Scores without a NaN always have an arg-max.\<close>

lemma is_max_exists:
  assumes "l \<noteq> []" and "NaN \<notin> set l"
  shows "\<exists>i<length l. is_max l i"
  using assms
proof (induction l rule: list_nonempty_induct)
  case (single x)
  then show ?case by (simp add: is_max_def float_le_refl)
next
  case (cons x xs)
  then obtain i where i: "i < length xs" "is_max xs i"
    by auto
  have nn: "x \<noteq> NaN" "xs ! i \<noteq> NaN"
    using cons.prems i(1) by (auto simp: in_set_conv_nth)
  show ?case
  proof (cases "float_le x (xs ! i)")
    case True
    then have "is_max (x # xs) (Suc i)"
      using i(2) by (simp add: is_max_def)
    then show ?thesis
      using i(1) by auto
  next
    case False
    then have le: "float_le (xs ! i) x"
      using float_le_total nn by blast
    have "is_max (x # xs) 0"
      using i(2) le nn by (auto simp: is_max_def list_all_iff float_le_refl intro: float_le_trans)
    then show ?thesis by auto
  qed
qed

lemma argmax_first_exists:
  assumes "l \<noteq> []" and "NaN \<notin> set l"
  shows "\<exists>i. argmax_first l = Some i"
proof -
  from is_max_exists [OF assms] obtain i where "i < length l" "is_max l i"
    by blast
  then have "\<exists>x. x \<in> set [0..<length l] \<and> is_max l x"
    by auto
  then show ?thesis
    unfolding argmax_first_def by (cases "find (is_max l) [0..<length l]") (auto simp: find_None_iff)
qed

lemma length_labels_at:
  assumes "int (length data) = n * int deeplabv3_label_count" and "int k < n"
  shows "length (labels_at data k) = deeplabv3_label_count"
proof -
  have "int (k + 1) \<le> n"
    using assms(2) by simp
  then have "int (k + 1) * int deeplabv3_label_count \<le> n * int deeplabv3_label_count"
    by (rule mult_right_mono) simp
  then have "int ((k + 1) * deeplabv3_label_count) \<le> int (length data)"
    using assms(1) by (simp add: algebra_simps)
  then have "(k + 1) * deeplabv3_label_count \<le> length data"
    by linarith
  then show ?thesis
    by (simp add: labels_at_def)
qed

lemma cell_index_less:
  fixes x y w h :: int
  assumes "0 \<le> x" and "x < w" and "0 \<le> y" and "y < h"
  shows "y * w + x < w * h" and "0 \<le> y * w + x"
proof -
  have "y * w + x < (y + 1) * w"
    using assms by (simp add: algebra_simps)
  also have "\<dots> \<le> h * w"
    using assms by (intro mult_right_mono) simp_all
  finally show "y * w + x < w * h"
    by (simp add: mult.commute)
  show "0 \<le> y * w + x"
    using assms by simp
qed

lemma getMaskFromOutput_succeeds:
  assumes "0 < stride r" and "0 \<le> width r" and "0 \<le> height r"
    and "(width r div stride r) * (height r div stride r) \<le> INT_MAX"
    and "int (length data) = (width r div stride r) * (height r div stride r) *
           (if model_type r = DeeplabV3 then int deeplabv3_label_count else 1)"
  shows "\<exists>m. getMaskFromOutput r data = Inr m"
proof -
  have nonneg: "0 \<le> width r div stride r" "0 \<le> height r div stride r"
    using assms(1-3) by (simp_all add: pos_imp_zdiv_nonneg_iff)
  then have "0 \<le> (width r div stride r) * (height r div stride r)"
    by simp
  then have "c_mul (width r div stride r) (height r div stride r) =
      Inr ((width r div stride r) * (height r div stride r))"
    using assms(4) by (simp add: c_mul_def INT_MIN_def)
  then show ?thesis
    using assms nonneg
    by (simp add: getMaskFromOutput_decoded decoded_def c_div_nonneg Mat_zeros_def not_less)
qed

text \<open>
  C1. DeepLabV3: the mask is as wide as \<open>width / stride\<close>, and cell \<open>(x, y)\<close>, whose 21
  scores are element \<open>y * maskw + x\<close> of the buffer, is 0 when the arg-max of these scores
  (the first class with the maximum score) is class 15 and 1 when it is another class. In
  particular a cell whose score for class 15 is above every other score is 0.
\<close>

theorem deeplab_decode:
  assumes "model_type r = DeeplabV3" and "getMaskFromOutput r data = Inr m" and "in_Mat m x y"
  shows "c_div (width r) (stride r) = Inr (cols m) \<and>
    (\<forall>i. argmax_first (labels_at data (nat (y * cols m + x))) = Some i \<longrightarrow>
          Mat_at m x y = Inr (if i = 15 then 0 else 1)) \<and>
    ((\<forall>j<21. j \<noteq> 15 \<longrightarrow>
          float_less (labels_at data (nat (y * cols m + x)) ! j)
            (labels_at data (nat (y * cols m + x)) ! 15)) \<longrightarrow>
      Mat_at m x y = Inr 0)"
proof -
  let ?cell = "labels_at data (nat (y * cols m + x))"
  have dec: "decoded r data = Inr m"
    using assms(2) by (simp add: getMaskFromOutput_decoded)
  then have at: "Mat_at m x y = Inr (if max_element ?cell \<noteq> person_label then 1 else 0)"
    using assms(1,3) by (simp add: decoded_at)
  from dec obtain maskw maskh where
    w: "c_div (width r) (stride r) = Inr maskw" and m: "rows m = maskh" "cols m = maskw"
    and len: "int (length data) = maskw * maskh * int deeplabv3_label_count"
    using assms(1) by (auto elim: decoded_Inr)
  have xy: "0 \<le> x" "x < maskw" "0 \<le> y" "y < maskh"
    using assms(3) m by (simp_all add: in_Mat_def)
  have "int (nat (y * cols m + x)) < maskw * maskh"
    using cell_index_less [OF xy] m by simp
  with len have cell_len: "length ?cell = 21"
    by (simp add: length_labels_at deeplabv3_label_count_def deeplabv3_label_names_def)
  have "Mat_at m x y = Inr (if i = 15 then 0 else 1)" if "argmax_first ?cell = Some i" for i
    using at max_element_argmax_first [OF that] by (simp add: person_label_def)
  moreover have "Mat_at m x y = Inr 0"
    if "\<forall>j<21. j \<noteq> 15 \<longrightarrow> float_less (?cell ! j) (?cell ! 15)"
  proof -
    have "max_element ?cell = 15"
      using that cell_len by (intro max_element_unique_max) simp_all
    then show ?thesis
      using at by (simp add: person_label_def)
  qed
  ultimately show ?thesis
    using w m by blast
qed

theorem deeplab_decode_witness:
  "model_type \<lparr>model_type = DeeplabV3, width = 2, height = 1, stride = 1\<rparr> = DeeplabV3 \<and>
   getMaskFromOutput \<lparr>model_type = DeeplabV3, width = 2, height = 1, stride = 1\<rparr>
       ((replicate 15 (Finite 0) @ [Finite 10] @ replicate 5 (Finite 0)) @
        (Finite 10 # replicate 20 (Finite 0))) =
     Inr \<lparr>rows = 1, cols = 2, elems = [0, 1]\<rparr> \<and>
   in_Mat \<lparr>rows = 1, cols = 2, elems = [0, 1 :: uchar]\<rparr> 0 0 \<and>
   in_Mat \<lparr>rows = 1, cols = 2, elems = [0, 1 :: uchar]\<rparr> 1 0 \<and>
   argmax_first (replicate 15 (Finite 0) @ [Finite 10] @ replicate 5 (Finite 0)) = Some 15 \<and>
   argmax_first (Finite 10 # replicate 20 (Finite 0)) = Some 0 \<and>
   Mat_at \<lparr>rows = 1, cols = 2, elems = [0, 1 :: uchar]\<rparr> 0 0 = Inr 0 \<and>
   Mat_at \<lparr>rows = 1, cols = 2, elems = [0, 1 :: uchar]\<rparr> 1 0 = Inr 1"
proof -
  let ?r = "\<lparr>model_type = DeeplabV3, width = 2, height = 1, stride = 1\<rparr>"
  let ?person = "replicate 15 (Finite 0) @ [Finite 10] @ replicate 5 (Finite 0)"
  let ?background = "Finite 10 # replicate 20 (Finite 0)"
  let ?m = "\<lparr>rows = 1, cols = 2, elems = [0, 1 :: uchar]\<rparr>"
  have r: "model_type ?r = DeeplabV3"
    by simp
  have run: "getMaskFromOutput ?r (?person @ ?background) = Inr ?m"
    by code_simp
  have inside: "in_Mat ?m 0 0" "in_Mat ?m 1 0"
    by (simp_all add: in_Mat_def)
  have cells: "labels_at (?person @ ?background) 0 = ?person"
    "labels_at (?person @ ?background) 1 = ?background"
    by code_simp+
  have arg: "argmax_first ?person = Some 15" "argmax_first ?background = Some 0"
    by code_simp+
  have "Mat_at ?m 0 0 = Inr 0"
    using deeplab_decode [OF r run inside(1)] cells(1) arg(1) by simp
  moreover have "Mat_at ?m 1 0 = Inr 1"
    using deeplab_decode [OF r run inside(2)] cells(2) arg(2) by simp
  ultimately show ?thesis
    using r run inside arg by blast
qed

text \<open>
  C2. BodyPix (ResNet and MobileNet): cell \<open>(x, y)\<close> of the mask is 1 exactly when the
  probability stored at \<open>y * maskw + x\<close> is below 0.5 in the comparison of floats, and 0
  otherwise; so 0.5 gives 0, 0.4999 gives 1 and 0.5001 gives 0.
\<close>

theorem threshold_decode:
  assumes "model_type r = BodypixResnet \<or> model_type r = BodypixMobilenet"
    and "getMaskFromOutput r data = Inr m" and "in_Mat m x y"
  shows "c_div (width r) (stride r) = Inr (cols m) \<and>
    Mat_at m x y =
      Inr (if float_less (data ! nat (y * cols m + x)) (Finite (1 / 2)) then 1 else 0) \<and>
    (\<forall>p. data ! nat (y * cols m + x) = Finite p \<longrightarrow>
         Mat_at m x y = Inr (if p < 1 / 2 then 1 else 0)) \<and>
    (data ! nat (y * cols m + x) = Finite 0.5 \<longrightarrow> Mat_at m x y = Inr 0) \<and>
    (data ! nat (y * cols m + x) = Finite 0.4999 \<longrightarrow> Mat_at m x y = Inr 1) \<and>
    (data ! nat (y * cols m + x) = Finite 0.5001 \<longrightarrow> Mat_at m x y = Inr 0)"
proof -
  have dec: "decoded r data = Inr m"
    using assms(2) by (simp add: getMaskFromOutput_decoded)
  have kind: "model_type r \<noteq> DeeplabV3"
    using assms(1) by auto
  have at: "Mat_at m x y =
      Inr (if float_less (data ! nat (y * cols m + x)) (Finite (1 / 2)) then 1 else 0)"
    using decoded_at [OF dec assms(3)] kind by (simp add: threshold_def)
  from dec obtain maskw where "c_div (width r) (stride r) = Inr maskw" "cols m = maskw"
    by (auto elim: decoded_Inr)
  then have w: "c_div (width r) (stride r) = Inr (cols m)"
    by simp
  have fin: "Mat_at m x y = Inr (if p < 1 / 2 then 1 else 0)"
    if "data ! nat (y * cols m + x) = Finite p" for p
    using at that by simp
  have "data ! nat (y * cols m + x) = Finite 0.5 \<longrightarrow> Mat_at m x y = Inr 0"
    using fin [of "0.5"] by simp
  moreover have "data ! nat (y * cols m + x) = Finite 0.4999 \<longrightarrow> Mat_at m x y = Inr 1"
    using fin [of "0.4999"] by simp
  moreover have "data ! nat (y * cols m + x) = Finite 0.5001 \<longrightarrow> Mat_at m x y = Inr 0"
    using fin [of "0.5001"] by simp
  ultimately show ?thesis
    using w at fin by blast
qed

theorem threshold_decode_witness:
  "(model_type \<lparr>model_type = BodypixMobilenet, width = 48, height = 16, stride = 16\<rparr> = BodypixResnet \<or>
    model_type \<lparr>model_type = BodypixMobilenet, width = 48, height = 16, stride = 16\<rparr> = BodypixMobilenet) \<and>
   getMaskFromOutput \<lparr>model_type = BodypixMobilenet, width = 48, height = 16, stride = 16\<rparr>
       [Finite 0.5, Finite 0.4999, Finite 0.5001] =
     Inr \<lparr>rows = 1, cols = 3, elems = [0, 1, 0]\<rparr> \<and>
   in_Mat \<lparr>rows = 1, cols = 3, elems = [0, 1, 0 :: uchar]\<rparr> 0 0 \<and>
   in_Mat \<lparr>rows = 1, cols = 3, elems = [0, 1, 0 :: uchar]\<rparr> 1 0 \<and>
   in_Mat \<lparr>rows = 1, cols = 3, elems = [0, 1, 0 :: uchar]\<rparr> 2 0 \<and>
   Mat_at \<lparr>rows = 1, cols = 3, elems = [0, 1, 0 :: uchar]\<rparr> 0 0 = Inr 0 \<and>
   Mat_at \<lparr>rows = 1, cols = 3, elems = [0, 1, 0 :: uchar]\<rparr> 1 0 = Inr 1 \<and>
   Mat_at \<lparr>rows = 1, cols = 3, elems = [0, 1, 0 :: uchar]\<rparr> 2 0 = Inr 0"
proof -
  let ?r = "\<lparr>model_type = BodypixMobilenet, width = 48, height = 16, stride = 16\<rparr>"
  let ?d = "[Finite 0.5, Finite 0.4999, Finite 0.5001]"
  let ?m = "\<lparr>rows = 1, cols = 3, elems = [0, 1, 0 :: uchar]\<rparr>"
  have r: "model_type ?r = BodypixResnet \<or> model_type ?r = BodypixMobilenet"
    by simp
  have run: "getMaskFromOutput ?r ?d = Inr ?m"
    by code_simp
  have inside: "in_Mat ?m 0 0" "in_Mat ?m 1 0" "in_Mat ?m 2 0"
    by (simp_all add: in_Mat_def)
  have "Mat_at ?m 0 0 = Inr 0"
    using threshold_decode [OF r run inside(1)] by simp
  moreover have "Mat_at ?m 1 0 = Inr 1"
    using threshold_decode [OF r run inside(2)] by simp
  moreover have "Mat_at ?m 2 0 = Inr 0"
    using threshold_decode [OF r run inside(3)] by simp
  ultimately show ?thesis
    using r run inside by blast
qed

text \<open>
  C9. The mask does not depend on the order in which the cells are visited: whatever
  arrangement of the cells a run of the parallel loop follows, the outcome (the mask, or
  the failed check) is the one of the loop run in sequence.
\<close>

theorem decode_deterministic:
  assumes "\<And>n. set (order1 n) = {0..<n}" and "\<And>n. set (order2 n) = {0..<n}"
  shows "getMaskFromOutput_in order1 r data = getMaskFromOutput_in order2 r data \<and>
         getMaskFromOutput_in order1 r data = getMaskFromOutput r data"
  using assms by (simp add: getMaskFromOutput_in_decoded getMaskFromOutput_decoded)

theorem decode_deterministic_witness:
  "(\<forall>n. set (rev [0..<n]) = {0..<n}) \<and> (\<forall>n. set ([0..<n] :: nat list) = {0..<n}) \<and>
   getMaskFromOutput_in (\<lambda>n. rev [0..<n])
       \<lparr>model_type = BodypixResnet, width = 32, height = 32, stride = 16\<rparr>
       [Finite 0.3, Finite 0.7, NaN, NegInf] =
   getMaskFromOutput_in (\<lambda>n. [0..<n])
       \<lparr>model_type = BodypixResnet, width = 32, height = 32, stride = 16\<rparr>
       [Finite 0.3, Finite 0.7, NaN, NegInf] \<and>
   getMaskFromOutput_in (\<lambda>n. rev [0..<n])
       \<lparr>model_type = BodypixResnet, width = 32, height = 32, stride = 16\<rparr>
       [Finite 0.3, Finite 0.7, NaN, NegInf] =
     Inr \<lparr>rows = 2, cols = 2, elems = [1, 0, 0, 1]\<rparr>"
proof -
  have a: "\<And>n. set (rev [0..<n]) = {0..<n}" and b: "\<And>n. set ([0..<n] :: nat list) = {0..<n}"
    by simp_all
  have run: "getMaskFromOutput \<lparr>model_type = BodypixResnet, width = 32, height = 32, stride = 16\<rparr>
       [Finite 0.3, Finite 0.7, NaN, NegInf] = Inr \<lparr>rows = 2, cols = 2, elems = [1, 0, 0, 1]\<rparr>"
    by code_simp
  have "getMaskFromOutput_in (\<lambda>n. rev [0..<n])
           \<lparr>model_type = BodypixResnet, width = 32, height = 32, stride = 16\<rparr>
           [Finite 0.3, Finite 0.7, NaN, NegInf] =
         getMaskFromOutput_in (\<lambda>n. [0..<n])
           \<lparr>model_type = BodypixResnet, width = 32, height = 32, stride = 16\<rparr>
           [Finite 0.3, Finite 0.7, NaN, NegInf] \<and>
         getMaskFromOutput_in (\<lambda>n. rev [0..<n])
           \<lparr>model_type = BodypixResnet, width = 32, height = 32, stride = 16\<rparr>
           [Finite 0.3, Finite 0.7, NaN, NegInf] =
         getMaskFromOutput
           \<lparr>model_type = BodypixResnet, width = 32, height = 32, stride = 16\<rparr>
           [Finite 0.3, Finite 0.7, NaN, NegInf]"
    by (rule decode_deterministic [OF a b])
  then show ?thesis
    using run by auto
qed

text \<open>
  C10. Whatever the model type and the buffer, every element of a decoded mask is 0 or 1.
\<close>

theorem mask_binary:
  assumes "getMaskFromOutput r data = Inr m"
  shows "\<forall>v \<in> set (elems m). v = 0 \<or> v = 1"
proof -
  have "decoded r data = Inr m"
    using assms by (simp add: getMaskFromOutput_decoded)
  then show ?thesis
    by (rule decoded_Inr) auto
qed

theorem mask_binary_witness:
  "getMaskFromOutput \<lparr>model_type = BodypixResnet, width = 32, height = 32, stride = 16\<rparr>
       [Finite 0.3, Finite 0.7, NaN, NegInf] = Inr \<lparr>rows = 2, cols = 2, elems = [1, 0, 0, 1]\<rparr> \<and>
   set (elems \<lparr>rows = 2, cols = 2, elems = [1, 0, 0, 1 :: uchar]\<rparr>) \<subseteq> {0, 1}"
proof -
  have run: "getMaskFromOutput \<lparr>model_type = BodypixResnet, width = 32, height = 32, stride = 16\<rparr>
       [Finite 0.3, Finite 0.7, NaN, NegInf] = Inr \<lparr>rows = 2, cols = 2, elems = [1, 0, 0, 1]\<rparr>"
    by code_simp
  show ?thesis
    using mask_binary [OF run] run by auto
qed

subsection \<open>The constructor\<close>

lemma kind_checks_Inr:
  "kind_checks mt s output = Inr u \<longleftrightarrow>
     mt = Undefined \<or> kind_contract mt s (TfLiteTensorDim output 3)"
  by (cases mt)
    (auto simp: kind_checks_def kind_contract_def and_then_eq_Inr deeplabv3_label_count_def
      deeplabv3_label_names_def)

lemma kind_checks_Inl:
  "kind_checks mt s output = Inl e \<Longrightarrow> \<exists>msg. e = CheckFailed msg"
  by (auto simp: kind_checks_def and_then_def CHECK_def split: if_splits sum.splits)

lemma new_BackgroundRemover_Inr:
  assumes "new_BackgroundRemover tf model_filename model_type_name = Inr r"
  obtains model in_t out_t where
    "ModelCreateFromFile tf model_filename = Some model"
    and "GetInputTensor model = Some in_t" and "GetOutputTensor model = Some out_t"
    and "model_type r = parseModelType model_type_name" and "model_type r \<noteq> Undefined"
    and "width r = TfLiteTensorDim in_t 1" and "height r = TfLiteTensorDim in_t 2"
    and "c_mod (width r) (TfLiteTensorDim out_t 1) = Inr 0"
    and "c_div (width r) (TfLiteTensorDim out_t 1) = Inr (stride r)"
    and "c_mod (height r) (TfLiteTensorDim out_t 2) = Inr 0"
    and "c_div (height r) (TfLiteTensorDim out_t 2) = Inr (stride r)"
    and "kind_contract (model_type r) (stride r) (TfLiteTensorDim out_t 3)"
  using assms unfolding new_BackgroundRemover_def Let_def and_then_eq_Inr
  by (auto simp: kind_checks_Inr)


lemma and_then_eq_Inl:
  "and_then m f = Inl e \<longleftrightarrow> m = Inl e \<or> (\<exists>a. m = Inr a \<and> f a = Inl e)"
  by (cases m) simp_all

lemma CHECK_eq_Inl: "CHECK c msg = Inl e \<longleftrightarrow> \<not> c \<and> e = CheckFailed msg"
  by (auto simp: CHECK_def)

lemma CHECK_NOTNULL_eq_Inl: "CHECK_NOTNULL p msg = Inl e \<longleftrightarrow> p = None \<and> e = CheckFailed msg"
  by (cases p) (auto simp: CHECK_NOTNULL_def)

lemma c_mod_Inl: "c_mod a b = Inl e \<longleftrightarrow> c_div a b = Inl e"
  by (auto simp: c_mod_def c_div_def)

text \<open>What stops the constructor is a failed check, or one of its two divisions.\<close>

lemma new_BackgroundRemover_Inl:
  assumes "new_BackgroundRemover tf model_filename model_type_name = Inl e"
  shows "(\<exists>msg. e = CheckFailed msg) \<or>
    (\<exists>model in_t out_t. ModelCreateFromFile tf model_filename = Some model \<and>
       GetInputTensor model = Some in_t \<and> GetOutputTensor model = Some out_t \<and>
       (c_div (TfLiteTensorDim in_t 1) (TfLiteTensorDim out_t 1) = Inl e \<or>
        c_div (TfLiteTensorDim in_t 2) (TfLiteTensorDim out_t 2) = Inl e))"
  using assms unfolding new_BackgroundRemover_def Let_def and_then_eq_Inl
  by (auto simp: CHECK_eq_Inl CHECK_NOTNULL_eq_Inl c_mod_Inl dest: kind_checks_Inl)


lemma kind_contract_stride_pos: "kind_contract k s c \<Longrightarrow> 0 < s"
  by (cases k) (auto simp: kind_contract_def)

lemma sdiv_smod_exact:
  fixes a b q :: int
  assumes "c_mod a b = Inr 0" and "c_div a b = Inr q"
  shows "a = q * b"
proof -
  have "a smod b = 0" and "q = a sdiv b"
    using assms by (auto dest: c_mod_Inr c_div_Inr)
  then show ?thesis
    using sdiv_mult_smod_eq [of a b] by simp
qed

lemma c_div_mult_pos:
  fixes s k :: int
  assumes "0 < s"
  shows "c_div (s * k) s = Inr k" and "c_mod (s * k) s = Inr 0"
proof -
  have "(s * k) sdiv s = sgn k * \<bar>k\<bar>"
    using assms by (simp add: signed_divide_int_def sgn_mult abs_mult)
  then have "(s * k) sdiv s = k"
    by (simp add: sgn_mult_abs)
  moreover have "(s * k) smod s = 0"
    by (simp add: signed_modulo_int_def abs_mult)
  ultimately show "c_div (s * k) s = Inr k" and "c_mod (s * k) s = Inr 0"
    using assms by (auto simp: c_div_def c_mod_def)
qed

text \<open>
  C4. A model whose stride (input width by output width) or number of output channels is
  not the one its kind requires is refused by the constructor: the constructor ends in a
  failure and returns no adapter. The failure is a failed check whenever the two divisions
  of the constructor are defined.
\<close>

theorem constructor_enforces_kind_contract:
  assumes "ModelCreateFromFile tf model_filename = Some model"
    and "GetInputTensor model = Some in_t" and "GetOutputTensor model = Some out_t"
    and "\<not> kind_contract (parseModelType model_type_name)
           (TfLiteTensorDim in_t 1 sdiv TfLiteTensorDim out_t 1) (TfLiteTensorDim out_t 3)"
  shows "(\<exists>e. new_BackgroundRemover tf model_filename model_type_name = Inl e) \<and>
    ((\<exists>q. c_div (TfLiteTensorDim in_t 1) (TfLiteTensorDim out_t 1) = Inr q) \<and>
     (\<exists>q. c_div (TfLiteTensorDim in_t 2) (TfLiteTensorDim out_t 2) = Inr q) \<longrightarrow>
     (\<exists>msg. new_BackgroundRemover tf model_filename model_type_name = Inl (CheckFailed msg)))"
proof -
  have no: "new_BackgroundRemover tf model_filename model_type_name \<noteq> Inr r" for r
  proof
    assume "new_BackgroundRemover tf model_filename model_type_name = Inr r"
    then obtain model' in_t' out_t' where
      "ModelCreateFromFile tf model_filename = Some model'"
      "GetInputTensor model' = Some in_t'" "GetOutputTensor model' = Some out_t'"
      "model_type r = parseModelType model_type_name"
      "width r = TfLiteTensorDim in_t' 1"
      "c_div (width r) (TfLiteTensorDim out_t' 1) = Inr (stride r)"
      "kind_contract (model_type r) (stride r) (TfLiteTensorDim out_t' 3)"
      by (rule new_BackgroundRemover_Inr)
    then have "kind_contract (parseModelType model_type_name)
        (TfLiteTensorDim in_t 1 sdiv TfLiteTensorDim out_t 1) (TfLiteTensorDim out_t 3)"
      using assms(1-3) by (auto dest: c_div_Inr)
    then show False
      using assms(4) by contradiction
  qed
  then obtain e where e: "new_BackgroundRemover tf model_filename model_type_name = Inl e"
    by (cases "new_BackgroundRemover tf model_filename model_type_name") auto
  have "\<exists>msg. e = CheckFailed msg"
    if "\<exists>q. c_div (TfLiteTensorDim in_t 1) (TfLiteTensorDim out_t 1) = Inr q"
      and "\<exists>q. c_div (TfLiteTensorDim in_t 2) (TfLiteTensorDim out_t 2) = Inr q"
    using new_BackgroundRemover_Inl [OF e] that assms(1-3) by auto
  then show ?thesis
    using e by auto
qed

theorem constructor_enforces_kind_contract_witness:
  "ModelCreateFromFile
     \<lparr>ModelCreateFromFile = (\<lambda>_. Some
        \<lparr>GetInputTensor = Some \<lparr>tensor_type = kTfLiteFloat32, tensor_dims = [1, 257, 257, 3]\<rparr>,
         GetOutputTensor = Some \<lparr>tensor_type = kTfLiteFloat32, tensor_dims = [1, 257, 257, 20]\<rparr>\<rparr>),
      InterpreterOptionsCreate = True, WITH_GL = False, GpuDelegateV2Create = False,
      InterpreterCreate = True\<rparr> ''m.tflite'' =
   Some \<lparr>GetInputTensor = Some \<lparr>tensor_type = kTfLiteFloat32, tensor_dims = [1, 257, 257, 3]\<rparr>,
         GetOutputTensor = Some \<lparr>tensor_type = kTfLiteFloat32, tensor_dims = [1, 257, 257, 20]\<rparr>\<rparr> \<and>
   \<not> kind_contract (parseModelType ''deeplabv3'')
       (TfLiteTensorDim \<lparr>tensor_type = kTfLiteFloat32, tensor_dims = [1, 257, 257, 3]\<rparr> 1 sdiv
        TfLiteTensorDim \<lparr>tensor_type = kTfLiteFloat32, tensor_dims = [1, 257, 257, 20]\<rparr> 1)
       (TfLiteTensorDim \<lparr>tensor_type = kTfLiteFloat32, tensor_dims = [1, 257, 257, 20]\<rparr> 3) \<and>
   (\<exists>msg. new_BackgroundRemover
     \<lparr>ModelCreateFromFile = (\<lambda>_. Some
        \<lparr>GetInputTensor = Some \<lparr>tensor_type = kTfLiteFloat32, tensor_dims = [1, 257, 257, 3]\<rparr>,
         GetOutputTensor = Some \<lparr>tensor_type = kTfLiteFloat32, tensor_dims = [1, 257, 257, 20]\<rparr>\<rparr>),
      InterpreterOptionsCreate = True, WITH_GL = False, GpuDelegateV2Create = False,
      InterpreterCreate = True\<rparr> ''m.tflite'' ''deeplabv3'' = Inl (CheckFailed msg))"
proof -
  let ?in = "\<lparr>tensor_type = kTfLiteFloat32, tensor_dims = [1, 257, 257, 3]\<rparr>"
  let ?out = "\<lparr>tensor_type = kTfLiteFloat32, tensor_dims = [1, 257, 257, 20]\<rparr>"
  let ?model = "\<lparr>GetInputTensor = Some ?in, GetOutputTensor = Some ?out\<rparr>"
  let ?tf = "\<lparr>ModelCreateFromFile = (\<lambda>_. Some ?model),
      InterpreterOptionsCreate = True, WITH_GL = False, GpuDelegateV2Create = False,
      InterpreterCreate = True\<rparr>"
  have model: "ModelCreateFromFile ?tf ''m.tflite'' = Some ?model"
    and tensors: "GetInputTensor ?model = Some ?in" "GetOutputTensor ?model = Some ?out"
    by simp_all
  have bad: "\<not> kind_contract (parseModelType ''deeplabv3'')
       (TfLiteTensorDim ?in 1 sdiv TfLiteTensorDim ?out 1) (TfLiteTensorDim ?out 3)"
    by (simp add: kind_contract_def parseModelType_def TfLiteTensorDim_def)
  have defined: "\<exists>q. c_div (TfLiteTensorDim ?in 1) (TfLiteTensorDim ?out 1) = Inr q"
    "\<exists>q. c_div (TfLiteTensorDim ?in 2) (TfLiteTensorDim ?out 2) = Inr q"
    by (simp_all add: c_div_def TfLiteTensorDim_def)
  show ?thesis
    using constructor_enforces_kind_contract [OF model tensors bad] model bad defined
    by blast
qed

text \<open>
  C5. An adapter that was constructed has a positive stride that divides its input width
  and height without remainder, and the mask resolution \<open>width / stride\<close> by
  \<open>height / stride\<close>, which is the size of every mask it decodes, gives back the input
  resolution when multiplied by the stride. A model whose output extents are not the input
  extents divided by one positive integer (a remainder, or two different ratios) makes the
  constructor fail.
\<close>

theorem geometry_invariant:
  "(\<forall>r. new_BackgroundRemover tf model_filename model_type_name = Inr r \<longrightarrow>
       0 < stride r \<and>
       c_mod (width r) (stride r) = Inr 0 \<and> c_mod (height r) (stride r) = Inr 0 \<and>
       (\<exists>maskw maskh. c_div (width r) (stride r) = Inr maskw \<and>
          c_div (height r) (stride r) = Inr maskh \<and>
          maskw * stride r = width r \<and> maskh * stride r = height r) \<and>
       (\<forall>data m. getMaskFromOutput r data = Inr m \<longrightarrow>
          cols m * stride r = width r \<and> rows m * stride r = height r)) \<and>
   (\<forall>model in_t out_t.
       ModelCreateFromFile tf model_filename = Some model \<and>
       GetInputTensor model = Some in_t \<and> GetOutputTensor model = Some out_t \<and>
       ((\<nexists>s. 0 < s \<and> TfLiteTensorDim in_t 1 = s * TfLiteTensorDim out_t 1 \<and>
               TfLiteTensorDim in_t 2 = s * TfLiteTensorDim out_t 2) \<or>
        TfLiteTensorDim in_t 1 smod TfLiteTensorDim out_t 1 \<noteq> 0 \<or>
        TfLiteTensorDim in_t 2 smod TfLiteTensorDim out_t 2 \<noteq> 0 \<or>
        TfLiteTensorDim in_t 1 sdiv TfLiteTensorDim out_t 1 \<noteq>
          TfLiteTensorDim in_t 2 sdiv TfLiteTensorDim out_t 2) \<longrightarrow>
       (\<exists>e. new_BackgroundRemover tf model_filename model_type_name = Inl e))"
proof (intro conjI allI impI)
  fix r
  assume new: "new_BackgroundRemover tf model_filename model_type_name = Inr r"
  then obtain model in_t out_t where
    geo: "c_mod (width r) (TfLiteTensorDim out_t 1) = Inr 0"
      "c_div (width r) (TfLiteTensorDim out_t 1) = Inr (stride r)"
      "c_mod (height r) (TfLiteTensorDim out_t 2) = Inr 0"
      "c_div (height r) (TfLiteTensorDim out_t 2) = Inr (stride r)"
    and kind: "kind_contract (model_type r) (stride r) (TfLiteTensorDim out_t 3)"
    by (rule new_BackgroundRemover_Inr)
  show pos: "0 < stride r"
    using kind by (rule kind_contract_stride_pos)
  have w: "width r = stride r * TfLiteTensorDim out_t 1"
    and h: "height r = stride r * TfLiteTensorDim out_t 2"
    using sdiv_smod_exact [OF geo(1,2)] sdiv_smod_exact [OF geo(3,4)] by simp_all
  show "c_mod (width r) (stride r) = Inr 0" "c_mod (height r) (stride r) = Inr 0"
    using pos by (simp_all add: w h c_div_mult_pos)
  have dw: "c_div (width r) (stride r) = Inr (TfLiteTensorDim out_t 1)"
    and dh: "c_div (height r) (stride r) = Inr (TfLiteTensorDim out_t 2)"
    using pos by (simp_all add: w h c_div_mult_pos)
  then show "\<exists>maskw maskh. c_div (width r) (stride r) = Inr maskw \<and>
          c_div (height r) (stride r) = Inr maskh \<and>
          maskw * stride r = width r \<and> maskh * stride r = height r"
    using w h by simp
  fix data m
  assume "getMaskFromOutput r data = Inr m"
  then have "decoded r data = Inr m"
    by (simp add: getMaskFromOutput_decoded)
  then have "cols m = TfLiteTensorDim out_t 1" "rows m = TfLiteTensorDim out_t 2"
    using dw dh by (auto elim!: decoded_Inr)
  then show "cols m * stride r = width r" "rows m * stride r = height r"
    using w h by simp_all
next
  fix model in_t out_t
  assume a: "ModelCreateFromFile tf model_filename = Some model \<and>
       GetInputTensor model = Some in_t \<and> GetOutputTensor model = Some out_t \<and>
       ((\<nexists>s. 0 < s \<and> TfLiteTensorDim in_t 1 = s * TfLiteTensorDim out_t 1 \<and>
               TfLiteTensorDim in_t 2 = s * TfLiteTensorDim out_t 2) \<or>
        TfLiteTensorDim in_t 1 smod TfLiteTensorDim out_t 1 \<noteq> 0 \<or>
        TfLiteTensorDim in_t 2 smod TfLiteTensorDim out_t 2 \<noteq> 0 \<or>
        TfLiteTensorDim in_t 1 sdiv TfLiteTensorDim out_t 1 \<noteq>
          TfLiteTensorDim in_t 2 sdiv TfLiteTensorDim out_t 2)"
  have "new_BackgroundRemover tf model_filename model_type_name \<noteq> Inr r" for r
  proof
    assume "new_BackgroundRemover tf model_filename model_type_name = Inr r"
    then obtain model' in_t' out_t' where
      env: "ModelCreateFromFile tf model_filename = Some model'"
        "GetInputTensor model' = Some in_t'" "GetOutputTensor model' = Some out_t'"
      and dims: "width r = TfLiteTensorDim in_t' 1" "height r = TfLiteTensorDim in_t' 2"
      and geo: "c_mod (width r) (TfLiteTensorDim out_t' 1) = Inr 0"
        "c_div (width r) (TfLiteTensorDim out_t' 1) = Inr (stride r)"
        "c_mod (height r) (TfLiteTensorDim out_t' 2) = Inr 0"
        "c_div (height r) (TfLiteTensorDim out_t' 2) = Inr (stride r)"
      and kind: "kind_contract (model_type r) (stride r) (TfLiteTensorDim out_t' 3)"
      by (rule new_BackgroundRemover_Inr)
    have same: "in_t' = in_t" "out_t' = out_t"
      using env a by auto
    have pos: "0 < stride r"
      using kind by (rule kind_contract_stride_pos)
    have "TfLiteTensorDim in_t 1 = stride r * TfLiteTensorDim out_t 1"
      "TfLiteTensorDim in_t 2 = stride r * TfLiteTensorDim out_t 2"
      using sdiv_smod_exact [OF geo(1,2)] sdiv_smod_exact [OF geo(3,4)] dims same by simp_all
    moreover have "TfLiteTensorDim in_t 1 smod TfLiteTensorDim out_t 1 = 0"
      "TfLiteTensorDim in_t 2 smod TfLiteTensorDim out_t 2 = 0"
      "TfLiteTensorDim in_t 1 sdiv TfLiteTensorDim out_t 1 =
        TfLiteTensorDim in_t 2 sdiv TfLiteTensorDim out_t 2"
      using geo dims same by (auto dest!: c_mod_Inr c_div_Inr)
    ultimately show False
      using a pos by blast
  qed
  then show "\<exists>e. new_BackgroundRemover tf model_filename model_type_name = Inl e"
    by (cases "new_BackgroundRemover tf model_filename model_type_name") auto
qed

theorem geometry_invariant_witness:
  "new_BackgroundRemover
     \<lparr>ModelCreateFromFile = (\<lambda>_. Some
        \<lparr>GetInputTensor = Some \<lparr>tensor_type = kTfLiteFloat32, tensor_dims = [1, 512, 256, 3]\<rparr>,
         GetOutputTensor = Some \<lparr>tensor_type = kTfLiteFloat32, tensor_dims = [1, 32, 16, 1]\<rparr>\<rparr>),
      InterpreterOptionsCreate = True, WITH_GL = False, GpuDelegateV2Create = False,
      InterpreterCreate = True\<rparr> ''m.tflite'' ''bodypix_resnet'' =
     Inr \<lparr>model_type = BodypixResnet, width = 512, height = 256, stride = 16\<rparr> \<and>
   c_mod 512 16 = Inr 0 \<and> c_mod 256 16 = Inr 0 \<and>
   c_div 512 16 = Inr 32 \<and> c_div 256 16 = Inr 16 \<and>
   (\<exists>e. new_BackgroundRemover
     \<lparr>ModelCreateFromFile = (\<lambda>_. Some
        \<lparr>GetInputTensor = Some \<lparr>tensor_type = kTfLiteFloat32, tensor_dims = [1, 512, 256, 3]\<rparr>,
         GetOutputTensor = Some \<lparr>tensor_type = kTfLiteFloat32, tensor_dims = [1, 32, 8, 1]\<rparr>\<rparr>),
      InterpreterOptionsCreate = True, WITH_GL = False, GpuDelegateV2Create = False,
      InterpreterCreate = True\<rparr> ''m.tflite'' ''bodypix_resnet'' = Inl e)"
proof -
  let ?in = "\<lparr>tensor_type = kTfLiteFloat32, tensor_dims = [1, 512, 256, 3]\<rparr>"
  let ?good = "\<lparr>GetInputTensor = Some ?in,
      GetOutputTensor = Some \<lparr>tensor_type = kTfLiteFloat32, tensor_dims = [1, 32, 16, 1]\<rparr>\<rparr>"
  let ?out = "\<lparr>tensor_type = kTfLiteFloat32, tensor_dims = [1, 32, 8, 1]\<rparr>"
  let ?bad = "\<lparr>GetInputTensor = Some ?in, GetOutputTensor = Some ?out\<rparr>"
  let ?tf = "\<lambda>model. \<lparr>ModelCreateFromFile = (\<lambda>_. Some model),
      InterpreterOptionsCreate = True, WITH_GL = False, GpuDelegateV2Create = False,
      InterpreterCreate = True\<rparr>"
  let ?r = "\<lparr>model_type = BodypixResnet, width = 512, height = 256, stride = 16\<rparr>"
  have new: "new_BackgroundRemover (?tf ?good) ''m.tflite'' ''bodypix_resnet'' = Inr ?r"
    by code_simp
  have "c_mod (width ?r) (stride ?r) = Inr 0 \<and> c_mod (height ?r) (stride ?r) = Inr 0 \<and>
      (\<exists>maskw maskh. c_div (width ?r) (stride ?r) = Inr maskw \<and>
          c_div (height ?r) (stride ?r) = Inr maskh \<and>
          maskw * stride ?r = width ?r \<and> maskh * stride ?r = height ?r)"
    using geometry_invariant [of "?tf ?good" "''m.tflite''" "''bodypix_resnet''"] new by blast
  then have good: "c_mod 512 16 = Inr 0 \<and> c_mod 256 16 = Inr 0 \<and>
      c_div 512 16 = Inr 32 \<and> c_div 256 16 = Inr 16"
    by (auto dest!: c_div_Inr)
  have ratios: "TfLiteTensorDim ?in 1 sdiv TfLiteTensorDim ?out 1 \<noteq>
      TfLiteTensorDim ?in 2 sdiv TfLiteTensorDim ?out 2"
    by (simp add: TfLiteTensorDim_def)
  have "\<exists>e. new_BackgroundRemover (?tf ?bad) ''m.tflite'' ''bodypix_resnet'' = Inl e"
    using geometry_invariant [of "?tf ?bad" "''m.tflite''" "''bodypix_resnet''"] ratios
    by simp
  then show ?thesis
    using new good by simp
qed

subsection \<open>Compositing\<close>

lemma for_each_folds:
  fixes s s0 :: "'a Mat"
  assumes "\<And>i (s :: 'a Mat). i \<in> set order \<Longrightarrow> rows s = rows s0 \<Longrightarrow> cols s = cols s0 \<Longrightarrow>
             f i s = Inr (s\<lparr>elems := fold (\<lambda>k es. if c k then es[k := v k] else es) (ks i) (elems s)\<rparr>)"
    and "rows s = rows s0" and "cols s = cols s0"
  shows "for_each order f s =
         Inr (s\<lparr>elems := fold (\<lambda>k es. if c k then es[k := v k] else es)
                          (concat (map ks order)) (elems s)\<rparr>)"
  using assms
proof (induction order arbitrary: s)
  case Nil
  then show ?case by simp
next
  case (Cons i order)
  let ?s = "s\<lparr>elems := fold (\<lambda>k es. if c k then es[k := v k] else es) (ks i) (elems s)\<rparr>"
  have step: "f i s = Inr ?s"
    using Cons.prems by simp
  have "for_each order f ?s =
        Inr (?s\<lparr>elems := fold (\<lambda>k es. if c k then es[k := v k] else es)
                           (concat (map ks order)) (elems ?s)\<rparr>)"
    using Cons.prems by (intro Cons.IH) auto
  then show ?case
    using step by simp
qed

lemma set_c_range [simp]: "set (c_range n) = {0..<n}"
proof -
  have "x \<in> int ` {0..<nat n} \<longleftrightarrow> 0 \<le> x \<and> x < n" for x
    by (auto simp: image_iff intro: bexI [of _ "nat x"])
  then show ?thesis
    by (auto simp: c_range_def)
qed

lemma composite_pixel_ok:
  fixes frame :: "'a Mat"
  assumes "in_Mat frame x y" and "rows maskImage = rows frame" and "cols maskImage = cols frame"
    and "rows upscaled = rows frame" and "cols upscaled = cols frame"
  shows "composite_pixel maskImage upscaled x y frame =
     Inr (if elems upscaled ! nat (y * cols frame + x) \<noteq> 0
          then frame\<lparr>elems := (elems frame)[nat (y * cols frame + x) :=
                  elems maskImage ! nat (y * cols frame + x)]\<rparr>
          else frame)"
  using assms by (simp add: composite_pixel_def Mat_at_def Mat_at_put_def in_Mat_def)

text \<open>The two loops of the compositing step visit every element of the frame.\<close>

lemma visited_all:
  fixes w h :: int
  assumes "0 \<le> w" and "0 \<le> h"
  shows "set (concat (map (\<lambda>x. map (\<lambda>y. nat (y * w + x)) (c_range h)) (c_range w))) =
         {0..<nat (h * w)}"
proof (intro set_eqI iffI)
  fix k
  assume "k \<in> set (concat (map (\<lambda>x. map (\<lambda>y. nat (y * w + x)) (c_range h)) (c_range w)))"
  then obtain x y where xy: "0 \<le> x" "x < w" "0 \<le> y" "y < h" and k: "k = nat (y * w + x)"
    by auto
  have "y * w + x < w * h"
    using xy by (rule cell_index_less)
  then show "k \<in> {0..<nat (h * w)}"
    using k xy by (simp add: mult.commute nat_less_iff)
next
  fix k
  assume "k \<in> {0..<nat (h * w)}"
  then have k: "int k < h * w"
    by simp
  then have pos: "0 < w"
    using assms by (cases "w = 0") auto
  have "int k div w < h"
    using k pos by (intro div_less_of_less_mult) (simp add: mult.commute)
  moreover have "0 \<le> int k div w" "0 \<le> int k mod w" "int k mod w < w"
    using pos by (simp_all add: pos_imp_zdiv_nonneg_iff)
  moreover have "k = nat (int k div w * w + int k mod w)"
    by simp
  ultimately show "k \<in> set (concat (map (\<lambda>x. map (\<lambda>y. nat (y * w + x)) (c_range h)) (c_range w)))"
    by (auto intro!: bexI [of _ "int k mod w"] image_eqI [of _ _ "int k div w"])
qed

lemma composite_eq:
  fixes frame :: "'a Mat"
  assumes "wf_Mat frame" and "rows maskImage = rows frame" and "cols maskImage = cols frame"
    and "rows upscaled = rows frame" and "cols upscaled = cols frame"
  shows "composite frame maskImage upscaled =
     Inr (frame\<lparr>elems := map (\<lambda>k. if elems upscaled ! k \<noteq> 0 then elems maskImage ! k
                                   else elems frame ! k) [0..<length (elems frame)]\<rparr>)"
proof -
  let ?upd = "\<lambda>k es. if elems upscaled ! k \<noteq> 0 then es[k := elems maskImage ! k] else es"
  let ?idx = "\<lambda>x y. nat (y * cols frame + x)"
  let ?ks = "\<lambda>x. map (?idx x) (c_range (rows frame))"
  have wf: "0 \<le> rows frame" "0 \<le> cols frame"
    "length (elems frame) = nat (rows frame * cols frame)"
    using assms(1) by (auto simp: wf_Mat_def)
  have inner: "for_each (c_range (rows frame)) (\<lambda>y. composite_pixel maskImage upscaled x y) s =
      Inr (s\<lparr>elems := fold ?upd (?ks x) (elems s)\<rparr>)"
    if "x \<in> set (c_range (cols frame))" and "rows s = rows frame" and "cols s = cols frame"
    for x and s :: "'a Mat"
  proof -
    have "for_each (c_range (rows frame)) (\<lambda>y. composite_pixel maskImage upscaled x y) s =
      Inr (s\<lparr>elems := fold ?upd (map (?idx x) (c_range (rows frame))) (elems s)\<rparr>)"
    proof (rule for_each_updates [where ?s0.0 = s])
      fix y and t :: "'a Mat"
      assume "y \<in> set (c_range (rows frame))" and "rows t = rows s" and "cols t = cols s"
      then have "in_Mat t x y"
        using that by (simp add: in_Mat_def)
      then show "composite_pixel maskImage upscaled x y t =
          Inr (if elems upscaled ! ?idx x y \<noteq> 0
               then t\<lparr>elems := (elems t)[?idx x y := elems maskImage ! ?idx x y]\<rparr> else t)"
        using composite_pixel_ok [of t x y maskImage upscaled] assms(2-5) that
          \<open>rows t = rows s\<close> \<open>cols t = cols s\<close>
        by simp
    qed simp_all
    then show ?thesis .
  qed
  have "composite frame maskImage upscaled =
      Inr (frame\<lparr>elems := fold ?upd (concat (map ?ks (c_range (cols frame)))) (elems frame)\<rparr>)"
    unfolding composite_def
    by (rule for_each_folds [where ?s0.0 = frame]) (simp_all add: inner)
  also have "fold ?upd (concat (map ?ks (c_range (cols frame)))) (elems frame) =
      map (\<lambda>k. if k \<in> set (concat (map ?ks (c_range (cols frame)))) \<and> elems upscaled ! k \<noteq> 0
               then elems maskImage ! k else elems frame ! k) [0..<length (elems frame)]"
    using wf by (intro fold_updates) (simp add: visited_all del: set_concat)
  also have "\<dots> = map (\<lambda>k. if elems upscaled ! k \<noteq> 0 then elems maskImage ! k
                          else elems frame ! k) [0..<length (elems frame)]"
    using wf by (simp add: visited_all del: set_concat)
  finally show ?thesis .
qed


lemma index_in_frame:
  fixes frame :: "'a Mat"
  assumes "wf_Mat frame" and "in_Mat frame x y"
  shows "nat (y * cols frame + x) < length (elems frame)"
proof -
  have "y * cols frame + x < cols frame * rows frame"
    using assms(2) by (intro cell_index_less) (simp_all add: in_Mat_def)
  then show ?thesis
    using assms by (simp add: wf_Mat_def in_Mat_def mult.commute nat_less_iff)
qed

lemma frame_has_index:
  fixes frame :: "'a Mat"
  assumes "wf_Mat frame" and "k < length (elems frame)"
  shows "\<exists>x y. in_Mat frame x y \<and> k = nat (y * cols frame + x)"
proof -
  have k: "int k < rows frame * cols frame" and wf: "0 \<le> rows frame" "0 \<le> cols frame"
    using assms by (auto simp: wf_Mat_def)
  then have pos: "0 < cols frame"
    by (cases "cols frame = 0") auto
  have "int k div cols frame < rows frame"
    using k pos by (intro div_less_of_less_mult) (simp add: mult.commute)
  then have "in_Mat frame (int k mod cols frame) (int k div cols frame)"
    using pos by (simp add: in_Mat_def pos_imp_zdiv_nonneg_iff)
  moreover have "k = nat (int k div cols frame * cols frame + int k mod cols frame)"
    by simp
  ultimately show ?thesis
    by blast
qed

text \<open>
  C3. For a frame, a replacement image and an upscaled mask of the same size, the
  compositing loops end, keep the size of the frame, and leave at every coordinate the
  pixel of the replacement image where the mask is 1 and the pixel of the frame where the
  mask is 0. A mask of ones gives the replacement image, a mask of zeros the frame itself.
\<close>

theorem composite_by_mask:
  fixes frame :: "'a Mat"
  assumes "wf_Mat frame" and "rows maskImage = rows frame" and "cols maskImage = cols frame"
    and "rows upscaled = rows frame" and "cols upscaled = cols frame"
  shows "\<exists>out. composite frame maskImage upscaled = Inr out \<and>
    rows out = rows frame \<and> cols out = cols frame \<and>
    (\<forall>x y. in_Mat frame x y \<longrightarrow>
       (Mat_at upscaled x y = Inr 1 \<longrightarrow> Mat_at out x y = Mat_at maskImage x y) \<and>
       (Mat_at upscaled x y = Inr 0 \<longrightarrow> Mat_at out x y = Mat_at frame x y)) \<and>
    ((\<forall>x y. in_Mat frame x y \<longrightarrow> Mat_at upscaled x y = Inr 1) \<longrightarrow>
       (\<forall>x y. in_Mat frame x y \<longrightarrow> Mat_at out x y = Mat_at maskImage x y) \<and>
       (wf_Mat maskImage \<longrightarrow> out = maskImage)) \<and>
    ((\<forall>x y. in_Mat frame x y \<longrightarrow> Mat_at upscaled x y = Inr 0) \<longrightarrow> out = frame)"
proof -
  define out where "out = frame\<lparr>elems := map (\<lambda>k. if elems upscaled ! k \<noteq> 0 then elems maskImage ! k
                                   else elems frame ! k) [0..<length (elems frame)]\<rparr>"
  have run: "composite frame maskImage upscaled = Inr out"
    unfolding out_def using assms by (rule composite_eq)
  have size: "rows out = rows frame" "cols out = cols frame"
    and len: "length (elems out) = length (elems frame)"
    by (simp_all add: out_def)
  have inside: "in_Mat out x y = in_Mat frame x y" "in_Mat maskImage x y = in_Mat frame x y"
    "in_Mat upscaled x y = in_Mat frame x y" for x y
    using assms(2-5) size by (simp_all add: in_Mat_def)
  have pixel: "Mat_at out x y =
      (if elems upscaled ! nat (y * cols frame + x) \<noteq> 0 then Mat_at maskImage x y
       else Mat_at frame x y)"
    and mask: "Mat_at upscaled x y = Inr (elems upscaled ! nat (y * cols frame + x))"
    if "in_Mat frame x y" for x y
    using that index_in_frame [OF assms(1) that] assms(2-5) inside [of x y]
    by (simp_all add: Mat_at_def out_def)
  have one: "Mat_at out x y = Mat_at maskImage x y"
    if "in_Mat frame x y" and "Mat_at upscaled x y = Inr 1" for x y
    using pixel [OF that(1)] mask [OF that(1)] that(2) by simp
  have zero: "Mat_at out x y = Mat_at frame x y"
    if "in_Mat frame x y" and "Mat_at upscaled x y = Inr 0" for x y
    using pixel [OF that(1)] mask [OF that(1)] that(2) by simp
  have all_one: "out = maskImage"
    if ones: "\<forall>x y. in_Mat frame x y \<longrightarrow> Mat_at upscaled x y = Inr 1" and wf: "wf_Mat maskImage"
  proof -
    have "elems upscaled ! k \<noteq> 0" if "k < length (elems frame)" for k
    proof -
      from frame_has_index [OF assms(1) that] obtain x y
        where "in_Mat frame x y" "k = nat (y * cols frame + x)" by blast
      then show ?thesis
        using ones mask [of x y] by auto
    qed
    then have "elems out = map (\<lambda>k. elems maskImage ! k) [0..<length (elems frame)]"
      by (simp add: out_def)
    moreover have "length (elems maskImage) = length (elems frame)"
      using wf assms(1-3) by (simp add: wf_Mat_def)
    ultimately have "elems out = elems maskImage"
      using map_nth [of "elems maskImage"] by simp
    then show ?thesis
      using size assms(2,3) by (simp add: out_def)
  qed
  have all_zero: "out = frame"
    if zeros: "\<forall>x y. in_Mat frame x y \<longrightarrow> Mat_at upscaled x y = Inr 0"
  proof -
    have "elems upscaled ! k = 0" if "k < length (elems frame)" for k
    proof -
      from frame_has_index [OF assms(1) that] obtain x y
        where "in_Mat frame x y" "k = nat (y * cols frame + x)" by blast
      then show ?thesis
        using zeros mask [of x y] by auto
    qed
    then have "elems out = map (\<lambda>k. elems frame ! k) [0..<length (elems frame)]"
      by (simp add: out_def)
    then have "elems out = elems frame"
      by (simp add: map_nth)
    then show ?thesis
      by (simp add: out_def)
  qed
  show ?thesis
    using run size one zero all_one all_zero by blast
qed


theorem composite_by_mask_witness:
  "wf_Mat \<lparr>rows = 1, cols = 2, elems = [(1, 2, 3), (4, 5, 6) :: Vec3b]\<rparr> \<and>
   (\<exists>out. composite \<lparr>rows = 1, cols = 2, elems = [(1, 2, 3), (4, 5, 6) :: Vec3b]\<rparr>
            \<lparr>rows = 1, cols = 2, elems = [(7, 8, 9), (10, 11, 12)]\<rparr>
            \<lparr>rows = 1, cols = 2, elems = [1, 0]\<rparr> = Inr out \<and>
      Mat_at out 0 0 = Inr (7, 8, 9) \<and> Mat_at out 1 0 = Inr (4, 5, 6)) \<and>
   composite \<lparr>rows = 1, cols = 2, elems = [(1, 2, 3), (4, 5, 6) :: Vec3b]\<rparr>
            \<lparr>rows = 1, cols = 2, elems = [(7, 8, 9), (10, 11, 12)]\<rparr>
            \<lparr>rows = 1, cols = 2, elems = [0, 0]\<rparr> =
     Inr \<lparr>rows = 1, cols = 2, elems = [(1, 2, 3), (4, 5, 6)]\<rparr> \<and>
   composite \<lparr>rows = 1, cols = 2, elems = [(1, 2, 3), (4, 5, 6) :: Vec3b]\<rparr>
            \<lparr>rows = 1, cols = 2, elems = [(7, 8, 9), (10, 11, 12)]\<rparr>
            \<lparr>rows = 1, cols = 2, elems = [1, 1]\<rparr> =
     Inr \<lparr>rows = 1, cols = 2, elems = [(7, 8, 9), (10, 11, 12)]\<rparr>"
proof -
  let ?frame = "\<lparr>rows = 1, cols = 2, elems = [(1, 2, 3), (4, 5, 6) :: Vec3b]\<rparr>"
  let ?image = "\<lparr>rows = 1, cols = 2, elems = [(7, 8, 9), (10, 11, 12) :: Vec3b]\<rparr>"
  let ?mask = "\<lambda>a b. \<lparr>rows = 1, cols = 2, elems = [a, b :: uchar]\<rparr>"
  have wf: "wf_Mat ?frame" "wf_Mat ?image"
    by (simp_all add: wf_Mat_def)
  have inside: "in_Mat ?frame x y \<longleftrightarrow> (x = 0 \<or> x = 1) \<and> y = 0" for x y
    by (auto simp: in_Mat_def)
  have mixed: "Mat_at (?mask 1 0) 0 0 = Inr 1" "Mat_at (?mask 1 0) 1 0 = Inr 0"
    and image: "Mat_at ?image 0 0 = Inr (7, 8, 9)"
    and frame: "Mat_at ?frame 1 0 = Inr (4, 5, 6)"
    by (simp_all add: Mat_at_def in_Mat_def)
  have zeros: "\<forall>x y. in_Mat ?frame x y \<longrightarrow> Mat_at (?mask 0 0) x y = Inr 0"
    and ones: "\<forall>x y. in_Mat ?frame x y \<longrightarrow> Mat_at (?mask 1 1) x y = Inr 1"
    using inside by (auto simp: Mat_at_def in_Mat_def [of "?mask a b" for a b])
  have "\<exists>out. composite ?frame ?image (?mask 1 0) = Inr out \<and>
      Mat_at out 0 0 = Inr (7, 8, 9) \<and> Mat_at out 1 0 = Inr (4, 5, 6)"
    using composite_by_mask [of ?frame ?image "?mask 1 0"] wf(1) mixed image frame
    by (auto simp: inside)
  moreover have "composite ?frame ?image (?mask 0 0) = Inr ?frame"
    using composite_by_mask [of ?frame ?image "?mask 0 0"] wf(1) zeros by auto
  moreover have "composite ?frame ?image (?mask 1 1) = Inr ?image"
    using composite_by_mask [of ?frame ?image "?mask 1 1"] wf ones by auto
  ultimately show ?thesis
    using wf(1) by blast
qed

subsection \<open>The entry point\<close>

lemma maskBackground_composite:
  assumes "upscaled_mask env r frame maskImage = Inr upscaled"
  shows "maskBackground env r frame maskImage = composite frame maskImage upscaled"
  using assms by (simp add: maskBackground_def)

lemma maskBackground_stopped_early:
  assumes "upscaled_mask env r frame maskImage = Inl e"
  shows "maskBackground env r frame maskImage = Inl (e, frame)"
  using assms by (simp add: maskBackground_def)

text \<open>
  C8. When the frame and the replacement image differ in size, \<open>maskBackground\<close> stops at
  its first check: the failed check is reported and the frame is the one it was given.
\<close>

theorem size_mismatch_leaves_frame:
  assumes "rows frame \<noteq> rows maskImage \<or> cols frame \<noteq> cols maskImage"
  shows "maskBackground env r frame maskImage =
         Inl (CheckFailed ''frame.size == maskImage.size'', frame)"
  using assms by (auto simp: maskBackground_def upscaled_mask_def)

theorem size_mismatch_leaves_frame_witness:
  "rows \<lparr>rows = 1, cols = 2, elems = [(1, 2, 3), (4, 5, 6) :: Vec3b]\<rparr> \<noteq>
      rows \<lparr>rows = 2, cols = 2, elems = replicate 4 ((0, 0, 255) :: Vec3b)\<rparr> \<and>
   maskBackground
     \<lparr>resize_frame = (\<lambda>m w h. Inr \<lparr>rows = h, cols = w, elems = replicate (nat (w * h)) (hd (elems m))\<rparr>),
      resize_mask = (\<lambda>m w h. Inr \<lparr>rows = h, cols = w, elems = replicate (nat (w * h)) (hd (elems m))\<rparr>),
      Invoke = (\<lambda>input. [Finite 0.3]),
      float_ops = \<lparr>cvt_scale = (\<lambda>u a b. Finite (a * real (unat u) + b)), of_double = Finite,
        fadd = (\<lambda>a b. a)\<rparr>,
      debug_build = False\<rparr>
     \<lparr>model_type = BodypixMobilenet, width = 16, height = 16, stride = 16\<rparr>
     \<lparr>rows = 1, cols = 2, elems = [(1, 2, 3), (4, 5, 6)]\<rparr>
     \<lparr>rows = 2, cols = 2, elems = replicate 4 (0, 0, 255)\<rparr> =
   Inl (CheckFailed ''frame.size == maskImage.size'',
        \<lparr>rows = 1, cols = 2, elems = [(1, 2, 3), (4, 5, 6)]\<rparr>)"
proof -
  have differ: "rows \<lparr>rows = 1, cols = 2, elems = [(1, 2, 3), (4, 5, 6) :: Vec3b]\<rparr> \<noteq>
      rows \<lparr>rows = 2, cols = 2, elems = replicate 4 ((0, 0, 255) :: Vec3b)\<rparr> \<or>
    cols \<lparr>rows = 1, cols = 2, elems = [(1, 2, 3), (4, 5, 6) :: Vec3b]\<rparr> \<noteq>
      cols \<lparr>rows = 2, cols = 2, elems = replicate 4 ((0, 0, 255) :: Vec3b)\<rparr>"
    by simp
  show ?thesis
    using size_mismatch_leaves_frame [OF differ] by simp
qed

subsection \<open>Normalisation\<close>









lemma round_to_grid:
  fixes x k :: real
  assumes "0 < k"
  shows "\<bar>of_int (round (x * k)) / k - x\<bar> \<le> 1 / (2 * k)"
proof -
  have "of_int (round (x * k)) / k - x = (of_int (round (x * k)) - x * k) / k"
    using assms by (simp add: field_simps)
  then have "\<bar>of_int (round (x * k)) / k - x\<bar> = \<bar>of_int (round (x * k)) - x * k\<bar> / k"
    using assms by simp
  also have "\<dots> \<le> (1 / 2) / k"
    using assms by (intro divide_right_mono of_int_round_abs_le) simp
  finally show ?thesis
    by simp
qed

text \<open>
  The hypothesis is met by operations that round: rounding every result to a multiple
  of \<open>1 / k\<close> is accurate to \<open>1 / (2 * k)\<close>.
\<close>

lemma ops_accurate_rounding:
  fixes k :: real
  assumes "0 < k"
  shows "ops_accurate (1 / (2 * k)) (1 / (2 * k)) (1 / (2 * k))
     \<lparr>cvt_scale = (\<lambda>u a b. Finite (of_int (round ((a * real (unat u) + b) * k)) / k)),
      of_double = (\<lambda>x. Finite (of_int (round (x * k)) / k)),
      fadd = (\<lambda>x y. case x of
                Finite a \<Rightarrow> (case y of Finite b \<Rightarrow> Finite (of_int (round ((a + b) * k)) / k)
                             | _ \<Rightarrow> NaN)
              | _ \<Rightarrow> NaN)\<rparr>"
  unfolding ops_accurate_def using round_to_grid [OF assms] by simp




end
